theory Spec2Isabelle
  imports Main "HOL-Library.Sublist"
begin

section \<open>Strings\<close>

text \<open>
  A JavaScript string is modelled by its UTF-8 encoding, a \<^typ>\<open>string\<close> of bytes:
  this is also what \<^verbatim>\<open>fs.writeFileSync(file, s, 'utf8')\<close> puts into a file and what
  \<^verbatim>\<open>fs.readFileSync(file, 'utf8')\<close> decodes again, so writing and reading are the
  identity on the model. A string is falsy exactly when it is empty, and
  \<^verbatim>\<open>s.startsWith('--')\<close> is \<^term>\<open>prefix ''--'' s\<close>.

  \<^verbatim>\<open>String.prototype.trim\<close> removes the code points of the ECMAScript classes
  WhiteSpace and LineTerminator from both ends. \<open>whiteSpace\<close> lists their UTF-8 encodings:
  U+0009 to U+000D, U+0020, U+00A0, U+1680, U+2000 to U+200A, U+2028, U+2029, U+202F, U+205F,
  U+3000 and U+FEFF.
\<close>

definition whiteSpace :: "string list" where
  "whiteSpace =
    [[CHR 0x09], [CHR 0x0A], [CHR 0x0B], [CHR 0x0C], [CHR 0x0D], [CHR 0x20],
     [CHR 0xC2, CHR 0xA0],
     [CHR 0xE1, CHR 0x9A, CHR 0x80],
     [CHR 0xE2, CHR 0x80, CHR 0x80], [CHR 0xE2, CHR 0x80, CHR 0x81],
     [CHR 0xE2, CHR 0x80, CHR 0x82], [CHR 0xE2, CHR 0x80, CHR 0x83],
     [CHR 0xE2, CHR 0x80, CHR 0x84], [CHR 0xE2, CHR 0x80, CHR 0x85],
     [CHR 0xE2, CHR 0x80, CHR 0x86], [CHR 0xE2, CHR 0x80, CHR 0x87],
     [CHR 0xE2, CHR 0x80, CHR 0x88], [CHR 0xE2, CHR 0x80, CHR 0x89],
     [CHR 0xE2, CHR 0x80, CHR 0x8A],
     [CHR 0xE2, CHR 0x80, CHR 0xA8], [CHR 0xE2, CHR 0x80, CHR 0xA9],
     [CHR 0xE2, CHR 0x80, CHR 0xAF],
     [CHR 0xE2, CHR 0x81, CHR 0x9F],
     [CHR 0xE3, CHR 0x80, CHR 0x80],
     [CHR 0xEF, CHR 0xBB, CHR 0xBF]]"

text \<open>The white space code point a string starts with, and the one it ends with.\<close>

definition leadingWs :: "string \<Rightarrow> string option" where
  "leadingWs s = List.find (\<lambda>w. prefix w s) whiteSpace"

definition trailingWs :: "string \<Rightarrow> string option" where
  "trailingWs s = List.find (\<lambda>w. suffix w s) whiteSpace"

lemma whiteSpace_nonempty: "w \<in> set whiteSpace \<Longrightarrow> w \<noteq> []"
  by (auto simp: whiteSpace_def)

lemma leadingWs_shorter: "leadingWs s = Some w \<Longrightarrow> length s - length w < length s"
proof -
  assume "leadingWs s = Some w"
  then have "w \<in> set whiteSpace" and "prefix w s"
    by (auto simp: leadingWs_def find_Some_iff)
  then have "w \<noteq> []" and "length w \<le> length s"
    by (auto simp: whiteSpace_nonempty prefix_length_le)
  then show ?thesis by (cases w) auto
qed

lemma trailingWs_shorter: "trailingWs s = Some w \<Longrightarrow> length s - length w < length s"
proof -
  assume "trailingWs s = Some w"
  then have "w \<in> set whiteSpace" and "suffix w s"
    by (auto simp: trailingWs_def find_Some_iff)
  then have "w \<noteq> []" and "length w \<le> length s"
    by (auto simp: whiteSpace_nonempty suffix_length_le)
  then show ?thesis by (cases w) auto
qed

function trimStart :: "string \<Rightarrow> string" where
  "trimStart s =
     (case leadingWs s of None \<Rightarrow> s | Some w \<Rightarrow> trimStart (drop (length w) s))"
  by pat_completeness auto
termination
  by (relation "measure length") (auto simp: leadingWs_shorter)

function trimEnd :: "string \<Rightarrow> string" where
  "trimEnd s =
     (case trailingWs s of None \<Rightarrow> s | Some w \<Rightarrow> trimEnd (take (length s - length w) s))"
  by pat_completeness auto
termination
  by (relation "measure length") (auto dest: trailingWs_shorter)

definition trim :: "string \<Rightarrow> string" where
  "trim s = trimEnd (trimStart s)"

text \<open>A string made of white space only (the empty string included).\<close>

definition whitespaceOnly :: "string \<Rightarrow> bool" where
  "whitespaceOnly s = (\<exists>ws. set ws \<subseteq> set whiteSpace \<and> concat ws = s)"

section \<open>The credential file (src/codeManager.js)\<close>

text \<open>
  The module reads, writes and deletes one fixed file, \<^verbatim>\<open>CODE_FILE\<close>. The file system is
  the content of that file (\<open>None\<close> when it does not exist) together with the faults of the
  environment: when \<open>write_error\<close>, \<open>read_error\<close> or \<open>unlink_error\<close> holds a message, the
  corresponding \<^verbatim>\<open>fs\<close> call throws an error with that message (a permission problem, a
  full disk, a directory in the file's place) and changes nothing. \<open>console\<close> collects what
  \<^verbatim>\<open>console.warn\<close> printed.
\<close>

datatype exn = Error string

fun message :: "exn \<Rightarrow> string" where
  "message (Error m) = m"

datatype warning = SaveCodeFailed string | LoadCodeFailed string | DeleteCodeFailed string

record fsys =
  code_file :: "string option"
  write_error :: "string option"
  read_error :: "string option"
  unlink_error :: "string option"
  console :: "warning list"

text \<open>A call returns a value or throws, and leaves a file system behind.\<close>

type_synonym 'a io = "fsys \<Rightarrow> (exn + 'a) \<times> fsys"

definition writeFileSync :: "string \<Rightarrow> unit io" where
  "writeFileSync data w =
     (case write_error w of
        Some m \<Rightarrow> (Inl (Error m), w)
      | None \<Rightarrow> (Inr (), w\<lparr>code_file := Some data\<rparr>))"

text \<open>\<^verbatim>\<open>fs.existsSync\<close> never throws.\<close>

definition existsSync :: "fsys \<Rightarrow> bool" where
  "existsSync w = (code_file w \<noteq> None)"

definition readFileSync :: "string io" where
  "readFileSync w =
     (case read_error w of
        Some m \<Rightarrow> (Inl (Error m), w)
      | None \<Rightarrow>
          (case code_file w of
             None \<Rightarrow> (Inl (Error ''ENOENT''), w)
           | Some data \<Rightarrow> (Inr data, w)))"

definition unlinkSync :: "unit io" where
  "unlinkSync w =
     (case unlink_error w of
        Some m \<Rightarrow> (Inl (Error m), w)
      | None \<Rightarrow>
          (case code_file w of
             None \<Rightarrow> (Inl (Error ''ENOENT''), w)
           | Some data \<Rightarrow> (Inr (), w\<lparr>code_file := None\<rparr>)))"

definition console_warn :: "warning \<Rightarrow> unit io" where
  "console_warn msg w = (Inr (), w\<lparr>console := console w @ [msg]\<rparr>)"

text \<open>
  \<^verbatim>\<open>
  function saveCode(code) {
      try { fs.writeFileSync(CODE_FILE, code, 'utf8'); }
      catch (err) { console.warn('... failed:', err.message); }
  }
  \<close>
\<close>

definition saveCode :: "string \<Rightarrow> unit io" where
  "saveCode code w =
     (case writeFileSync code w of
        (Inl err, w') \<Rightarrow> console_warn (SaveCodeFailed (message err)) w'
      | (Inr u, w') \<Rightarrow> (Inr (), w'))"

text \<open>
  \<^verbatim>\<open>
  function loadCode() {
      try {
          if (fs.existsSync(CODE_FILE)) {
              const code = fs.readFileSync(CODE_FILE, 'utf8').trim();
              return code || null;
          }
      } catch (err) { console.warn('... failed:', err.message); }
      return null;
  }
  \<close>
  The result \<open>None\<close> is \<^verbatim>\<open>null\<close>.
\<close>

definition loadCode :: "string option io" where
  "loadCode w =
     (if existsSync w then
        (case readFileSync w of
           (Inl err, w') \<Rightarrow>
             (case console_warn (LoadCodeFailed (message err)) w' of
                (Inl e, w'') \<Rightarrow> (Inl e, w'')
              | (Inr u, w'') \<Rightarrow> (Inr None, w''))
         | (Inr data, w') \<Rightarrow>
             (let code = trim data in (Inr (if code \<noteq> [] then Some code else None), w')))
      else (Inr None, w))"

text \<open>
  \<^verbatim>\<open>
  function deleteCode() {
      try { if (fs.existsSync(CODE_FILE)) { fs.unlinkSync(CODE_FILE); } }
      catch (err) { console.warn('... failed:', err.message); }
  }
  \<close>
\<close>

definition deleteCode :: "unit io" where
  "deleteCode w =
     (if existsSync w then
        (case unlinkSync w of
           (Inl err, w') \<Rightarrow> console_warn (DeleteCodeFailed (message err)) w'
         | (Inr u, w') \<Rightarrow> (Inr (), w'))
      else (Inr (), w))"

section \<open>Command-line arguments (client.js)\<close>

text \<open>
  \<^verbatim>\<open>getArgsMap\<close> fills a JavaScript \<^verbatim>\<open>Map\<close>, whose iteration order is the order in
  which keys were first inserted; \<^verbatim>\<open>map.set\<close> on a key that is present replaces its
  value in place. A value is \<^verbatim>\<open>true\<close> or a string.
\<close>

datatype argval = ATrue | AStr string

type_synonym argsmap = "(string \<times> argval) list"

fun Map_set :: "string \<Rightarrow> argval \<Rightarrow> argsmap \<Rightarrow> argsmap" where
  "Map_set k v [] = [(k, v)]"
| "Map_set k v ((k', v') # m) = (if k' = k then (k, v) # m else (k', v') # Map_set k v m)"

text \<open>
  \<^verbatim>\<open>
  for (let i = 0; i < args.length; i++) {
      const key = args[i];
      if (!key.startsWith('--')) { map.set(key, true); continue; }
      if (i >= (args.length - 1)) { break; }
      const value = args[++i];
      if (value === undefined || value.startsWith('--')) { continue; }
      map.set(key, value);
  }
  \<close>
  The loop is a recursion on the arguments from index \<open>i\<close> on, with the map built so far.
  The second equation is the last argument (\<open>i = args.length - 1\<close>); in the third
  \<open>value\<close> is \<open>args[i + 1]\<close>, which exists there, so it is never \<^verbatim>\<open>undefined\<close>.
\<close>

fun getArgsMap_loop :: "string list \<Rightarrow> argsmap \<Rightarrow> argsmap" where
  "getArgsMap_loop [] m = m"
| "getArgsMap_loop [key] m =
     (if \<not> prefix ''--'' key then Map_set key ATrue m else m)"
| "getArgsMap_loop (key # value # rest) m =
     (if \<not> prefix ''--'' key then getArgsMap_loop (value # rest) (Map_set key ATrue m)
      else if prefix ''--'' value then getArgsMap_loop rest m
      else getArgsMap_loop rest (Map_set key (AStr value) m))"

definition getArgsMap :: "string list \<Rightarrow> argsmap" where
  "getArgsMap args = getArgsMap_loop args []"

text \<open>
  Where the loop stands after the arguments \<open>pre\<close>: \<open>key_position pre\<close> holds when the loop,
  started at index 0, comes to its head with \<open>i = length pre\<close>, so that the argument after
  \<open>pre\<close> is read as a \<^verbatim>\<open>key\<close>. It fails when the last argument of \<open>pre\<close> is a key starting
  with \<^verbatim>\<open>--\<close>: then the argument after \<open>pre\<close> is read as its \<^verbatim>\<open>value\<close> (or the loop ends).
\<close>

fun key_position :: "string list \<Rightarrow> bool" where
  "key_position [] = True"
| "key_position [key] = (\<not> prefix ''--'' key)"
| "key_position (key # value # rest) =
     (if \<not> prefix ''--'' key then key_position (value # rest) else key_position rest)"

section \<open>Configuration and options (client.js, parseArgs)\<close>

text \<open>
  \<^verbatim>\<open>CONFIG\<close> is a mutable object of \<^verbatim>\<open>src/config.js\<close>, which is not among the sources: its
  initial value is a parameter of the model. The intervals are numbers of milliseconds.
  Numbers are modelled as integers (exact below \<open>2^53\<close>), and a number that may be
  \<^verbatim>\<open>NaN\<close> as an \<^typ>\<open>int option\<close> with \<open>None\<close> for \<^verbatim>\<open>NaN\<close>.
\<close>

record config =
  platform :: string
  farmCheckInterval :: int
  friendCheckInterval :: int

text \<open>The environment variables the entry point reads; \<open>None\<close> is an unset variable.\<close>

record env =
  env_CODE :: "string option"
  env_PLATFORM :: "string option"
  env_QR_LOGIN :: "string option"
  env_INTERVAL :: "string option"
  env_FRIEND_INTERVAL :: "string option"

text \<open>
  \<^verbatim>\<open>options.code\<close> receives a value of the argument map, a string or \<^verbatim>\<open>true\<close>.
  \<^verbatim>\<open>options.useSavedCode\<close> is \<^verbatim>\<open>undefined\<close> until \<^verbatim>\<open>main\<close> sets it, which reads as false.
\<close>

record options =
  code :: argval
  qrLogin :: bool
  useSavedCode :: bool

fun truthy :: "argval \<Rightarrow> bool" where
  "truthy ATrue = True"
| "truthy (AStr s) = (s \<noteq> [])"

subsection \<open>parseInt\<close>

text \<open>
  \<^verbatim>\<open>parseInt(s)\<close> skips leading white space, reads a sign, a \<^verbatim>\<open>0x\<close> prefix (then the radix
  is 16) and the longest run of digits; the result is \<^verbatim>\<open>NaN\<close> when there is no digit.
  \<^verbatim>\<open>parseInt(undefined)\<close> and \<^verbatim>\<open>parseInt(true)\<close> are \<^verbatim>\<open>NaN\<close>.
\<close>

definition digitValue :: "nat \<Rightarrow> char \<Rightarrow> nat option" where
  "digitValue radix c =
     (let n = (of_char c :: nat);
          d = (if 48 \<le> n \<and> n \<le> 57 then Some (n - 48)
               else if 97 \<le> n \<and> n \<le> 102 then Some (n - 87)
               else if 65 \<le> n \<and> n \<le> 70 then Some (n - 55)
               else None)
      in case d of None \<Rightarrow> None | Some v \<Rightarrow> if v < radix then Some v else None)"

fun parseDigits :: "nat \<Rightarrow> string \<Rightarrow> nat option \<Rightarrow> nat option" where
  "parseDigits radix [] acc = acc"
| "parseDigits radix (c # cs) acc =
     (case digitValue radix c of
        None \<Rightarrow> acc
      | Some d \<Rightarrow>
          parseDigits radix cs (Some (radix * (case acc of None \<Rightarrow> 0 | Some a \<Rightarrow> a) + d)))"

definition parseInt :: "string \<Rightarrow> int option" where
  "parseInt s =
     (let s1 = trimStart s;
          negative = prefix ''-'' s1;
          s2 = (if prefix ''-'' s1 \<or> prefix ''+'' s1 then drop 1 s1 else s1);
          hex = (prefix ''0x'' s2 \<or> prefix ''0X'' s2);
          s3 = (if hex then drop 2 s2 else s2)
      in case parseDigits (if hex then 16 else 10) s3 None of
           None \<Rightarrow> None
         | Some n \<Rightarrow> Some (if negative then - int n else int n))"

text \<open>\<^verbatim>\<open>parseInt(process.env.X)\<close> and \<^verbatim>\<open>parseInt(value)\<close> for a value of the map.\<close>

fun parseInt_env :: "string option \<Rightarrow> int option" where
  "parseInt_env None = None"
| "parseInt_env (Some s) = parseInt s"

fun parseInt_arg :: "argval \<Rightarrow> int option" where
  "parseInt_arg ATrue = None"
| "parseInt_arg (AStr s) = parseInt s"

text \<open>\<^verbatim>\<open>x || 0\<close> on a number, and the truth value of a number in \<^verbatim>\<open>if (x)\<close>.\<close>

fun or_zero :: "int option \<Rightarrow> int option" where
  "or_zero None = Some 0"
| "or_zero (Some n) = Some n"

fun number_truthy :: "int option \<Rightarrow> bool" where
  "number_truthy None = False"
| "number_truthy (Some n) = (n \<noteq> 0)"

subsection \<open>parseArgs\<close>

text \<open>
  The variables of \<^verbatim>\<open>parseArgs\<close> while it runs: \<^verbatim>\<open>options\<close>, the global \<^verbatim>\<open>CONFIG\<close>, and
  the locals \<^verbatim>\<open>interval\<close> and \<^verbatim>\<open>friend_interval\<close>.
\<close>

record parse_state =
  ps_options :: options
  ps_CONFIG :: config
  ps_interval :: "int option"
  ps_friend_interval :: "int option"

text \<open>
  Step 1, the environment:
  \<^verbatim>\<open>
  if (process.env.CODE) { options.code = process.env.CODE; }
  if (process.env.PLATFORM && ['qq', 'wx'].includes(process.env.PLATFORM)) {
      CONFIG.platform = process.env.PLATFORM;
  }
  if (process.env.QR_LOGIN === 'true') { options.qrLogin = true; }
  let interval = parseInt(process.env.INTERVAL) || 0;
  let friend_interval = parseInt(process.env.FRIEND_INTERVAL) || 0;
  \<close>
\<close>

definition parseArgs_env :: "env \<Rightarrow> config \<Rightarrow> parse_state" where
  "parseArgs_env e cfg =
     \<lparr>ps_options =
        \<lparr>code = (case env_CODE e of
                   Some c \<Rightarrow> if c \<noteq> [] then AStr c else AStr []
                 | None \<Rightarrow> AStr []),
         qrLogin = (env_QR_LOGIN e = Some ''true''),
         useSavedCode = False\<rparr>,
      ps_CONFIG =
        (case env_PLATFORM e of
           Some p \<Rightarrow> if p \<noteq> [] \<and> p \<in> set [''qq'', ''wx''] then cfg\<lparr>platform := p\<rparr> else cfg
         | None \<Rightarrow> cfg),
      ps_interval = or_zero (parseInt_env (env_INTERVAL e)),
      ps_friend_interval = or_zero (parseInt_env (env_FRIEND_INTERVAL e))\<rparr>"

text \<open>
  Step 2, one entry of the argument map, the body of the \<^verbatim>\<open>switch (key)\<close>:
  \<^verbatim>\<open>
  case '--code':            options.code = value; break;
  case '--qr':              options.qrLogin = value === true || value === 'true'; break;
  case '--wx':              CONFIG.platform = 'wx'; break;
  case '--qq':              CONFIG.platform = 'qq'; break;
  case '--interval':        interval = parseInt(value); break;
  case '--friend-interval': friend_interval = parseInt(value); break;
  \<close>
\<close>

definition parseArgs_case :: "parse_state \<Rightarrow> string \<times> argval \<Rightarrow> parse_state" where
  "parseArgs_case st kv =
     (let key = fst kv; val = snd kv in
      if key = ''--code'' then st\<lparr>ps_options := (ps_options st)\<lparr>code := val\<rparr>\<rparr>
      else if key = ''--qr'' then
        st\<lparr>ps_options := (ps_options st)\<lparr>qrLogin := (val = ATrue \<or> val = AStr ''true'')\<rparr>\<rparr>
      else if key = ''--wx'' then st\<lparr>ps_CONFIG := (ps_CONFIG st)\<lparr>platform := ''wx''\<rparr>\<rparr>
      else if key = ''--qq'' then st\<lparr>ps_CONFIG := (ps_CONFIG st)\<lparr>platform := ''qq''\<rparr>\<rparr>
      else if key = ''--interval'' then st\<lparr>ps_interval := parseInt_arg val\<rparr>
      else if key = ''--friend-interval'' then st\<lparr>ps_friend_interval := parseInt_arg val\<rparr>
      else st)"

text \<open>The state after \<^verbatim>\<open>for (const [key, value] of argsMap)\<close>, in the map's order.\<close>

definition parseArgs_locals :: "env \<Rightarrow> argsmap \<Rightarrow> config \<Rightarrow> parse_state" where
  "parseArgs_locals e argsMap cfg = foldl parseArgs_case (parseArgs_env e cfg) argsMap"

text \<open>
  The end of \<^verbatim>\<open>parseArgs\<close>:
  \<^verbatim>\<open>
  if (interval) { CONFIG.farmCheckInterval = Math.max(interval, 1) * 1000; }
  if (friend_interval) { CONFIG.friendCheckInterval = Math.max(friend_interval, 1) * 1000; }
  return options;
  \<close>
\<close>

definition apply_farm :: "int option \<Rightarrow> config \<Rightarrow> config" where
  "apply_farm interval cfg =
     (case interval of
        None \<Rightarrow> cfg
      | Some n \<Rightarrow>
          if number_truthy (Some n) then cfg\<lparr>farmCheckInterval := max n 1 * 1000\<rparr> else cfg)"

definition apply_friend :: "int option \<Rightarrow> config \<Rightarrow> config" where
  "apply_friend friend_interval cfg =
     (case friend_interval of
        None \<Rightarrow> cfg
      | Some n \<Rightarrow>
          if number_truthy (Some n) then cfg\<lparr>friendCheckInterval := max n 1 * 1000\<rparr> else cfg)"

definition parseArgs :: "env \<Rightarrow> argsmap \<Rightarrow> config \<Rightarrow> options \<times> config" where
  "parseArgs e argsMap cfg =
     (let st = parseArgs_locals e argsMap cfg in
      (ps_options st,
       apply_friend (ps_friend_interval st) (apply_farm (ps_interval st) (ps_CONFIG st))))"

section \<open>The process (client.js, main and its callbacks)\<close>

text \<open>
  The modules the entry point drives (\<^verbatim>\<open>network\<close>, \<^verbatim>\<open>farm\<close>, \<^verbatim>\<open>friend\<close>, \<^verbatim>\<open>task\<close>,
  \<^verbatim>\<open>status\<close>, \<^verbatim>\<open>warehouse\<close>, \<^verbatim>\<open>invite\<close>, \<^verbatim>\<open>decode\<close>, \<^verbatim>\<open>qqQrLogin\<close>, \<^verbatim>\<open>proto\<close>)
  are not among the sources. A call to one of them is an \<open>action\<close> appended to the \<open>trace\<close> of
  the process, in the order of the calls; each is taken to return normally, except
  \<^verbatim>\<open>getQQFarmCodeByScan\<close>, whose promise yields a code or is rejected. Log lines are actions
  too, with the data they print.
\<close>

datatype logmsg =
    QrAcquiring | QrReacquiring | QrAcquired string | QrFailed string
  | SavedCodeDetected | WxNeedsCode | Startup argval
  | LoginFailed string | OldCodeInvalid | Unrecoverable
  | Disconnecting | ConnectionClosed int | StartFailed string

datatype callback = DebugSellFruits

datatype action =
    LoadProto | VerifyMode | DecodeMode "string list" | ShowHelp | ClearScreen
  | InitStatusBar | SetStatusPlatform string | EmitRuntimeHint
  | Log logmsg
  | GetQQFarmCodeByScan | Connect argval
  | CallLoadCode | CallSaveCode string | CallDeleteCode
  | ProcessInviteCodes | StartFarmCheckLoop | StartFriendCheckLoop | InitTaskSystem
  | SetTimeout callback int | StartSellLoop int
  | CleanupStatusBar | StopFarmCheckLoop | StopFriendCheckLoop | CleanupTaskSystem
  | StopSellLoop | Cleanup
  | WsClose | Sleep int | ProcessExit int

text \<open>
  The state of the process: the global \<^verbatim>\<open>CONFIG\<close>, the file system, the trace, the
  variables \<^verbatim>\<open>options\<close> and \<^verbatim>\<open>usedQrLogin\<close> of \<^verbatim>\<open>main\<close> that its callbacks close
  over, the exit code once \<^verbatim>\<open>process.exit\<close> was called, the listeners registered with
  \<^verbatim>\<open>networkEvents.once('disconnected', ...)\<close> and \<^verbatim>\<open>process.on('SIGINT', ...)\<close>, and
  whether \<^verbatim>\<open>connect\<close> was called and its login is not answered yet. The environment
  gives \<open>socket\<close> (whether \<^verbatim>\<open>getWs()\<close> returns a socket), \<open>isTTY\<close> and \<open>qr_scan\<close>, what the
  QR scan yields. \<open>loginAttemptCount\<close> is the counter of the second entry point.
\<close>

record proc =
  CONFIG :: config
  files :: fsys
  trace :: "action list"
  opts :: options
  usedQrLogin :: bool
  exit_code :: "int option"
  disconnected_listener :: bool
  sigint_listener :: bool
  connecting :: bool
  socket :: bool
  isTTY :: bool
  qr_scan :: "exn + string"
  loginAttemptCount :: nat

definition call :: "action \<Rightarrow> proc \<Rightarrow> proc" where
  "call a s = s\<lparr>trace := trace s @ [a]\<rparr>"

text \<open>\<^verbatim>\<open>process.exit(n)\<close> ends the process: nothing runs after it.\<close>

definition process_exit :: "int \<Rightarrow> proc \<Rightarrow> proc" where
  "process_exit n s = (call (ProcessExit n) s)\<lparr>exit_code := Some n\<rparr>"

text \<open>A sequence of statements: it stops at the statement that exits the process.\<close>

fun steps :: "(proc \<Rightarrow> proc) list \<Rightarrow> proc \<Rightarrow> proc" where
  "steps [] s = s"
| "steps (f # fs) s = (let s' = f s in if exit_code s' \<noteq> None then s' else steps fs s')"

text \<open>
  The calls into \<^verbatim>\<open>src/codeManager.js\<close>. An exception out of one of them would be an
  uncaught error, which ends the process with code 1; the three functions catch every error
  of the file system, so this branch is never taken.
\<close>

definition uncaught :: "exn \<Rightarrow> proc \<Rightarrow> proc" where
  "uncaught e s = s\<lparr>exit_code := Some 1\<rparr>"

definition do_saveCode :: "string \<Rightarrow> proc \<Rightarrow> proc" where
  "do_saveCode c s =
     (case saveCode c (files s) of
        (Inr u, w) \<Rightarrow> (call (CallSaveCode c) s)\<lparr>files := w\<rparr>
      | (Inl e, w) \<Rightarrow> uncaught e ((call (CallSaveCode c) s)\<lparr>files := w\<rparr>))"

definition do_deleteCode :: "proc \<Rightarrow> proc" where
  "do_deleteCode s =
     (case deleteCode (files s) of
        (Inr u, w) \<Rightarrow> (call CallDeleteCode s)\<lparr>files := w\<rparr>
      | (Inl e, w) \<Rightarrow> uncaught e ((call CallDeleteCode s)\<lparr>files := w\<rparr>))"

subsection \<open>Constants and helpers\<close>

definition INITIAL_SELL_DELAY_MS :: int where
  "INITIAL_SELL_DELAY_MS = 5000"

definition SELL_LOOP_INTERVAL_MS :: int where
  "SELL_LOOP_INTERVAL_MS = 60000"

definition RECONNECT_DELAY_MS :: int where
  "RECONNECT_DELAY_MS = 1000"

text \<open>\<^verbatim>\<open>clearScreen\<close> writes the escape sequence only on a terminal.\<close>

definition clearScreen :: "proc \<Rightarrow> proc" where
  "clearScreen s = (if isTTY s then call ClearScreen s else s)"

text \<open>
  \<^verbatim>\<open>
  function shutdownAllModules() {
      cleanupStatusBar(); stopFarmCheckLoop(); stopFriendCheckLoop();
      cleanupTaskSystem(); stopSellLoop(); cleanup();
  }
  \<close>
\<close>

definition shutdownAllModules :: "proc \<Rightarrow> proc" where
  "shutdownAllModules =
     steps [call CleanupStatusBar, call StopFarmCheckLoop, call StopFriendCheckLoop,
            call CleanupTaskSystem, call StopSellLoop, call Cleanup]"

text \<open>
  \<^verbatim>\<open>
  async function acquireCodeByQrScan(context) {
      log(..., context); const code = await getQQFarmCodeByScan();
      log(..., codePreview(code)); saveCode(code); return code;
  }
  \<close>
  A rejected scan leaves the function as an exception.
\<close>

definition acquireCodeByQrScan :: "logmsg \<Rightarrow> proc \<Rightarrow> (exn + string) \<times> proc" where
  "acquireCodeByQrScan context s =
     (let s1 = call GetQQFarmCodeByScan (call (Log context) s) in
      case qr_scan s1 of
        Inl e \<Rightarrow> (Inl e, s1)
      | Inr c \<Rightarrow> (Inr c, do_saveCode c (call (Log (QrAcquired c)) s1)))"

text \<open>
  \<^verbatim>\<open>connect(code, onLoginSuccess, onLoginError)\<close> of \<^verbatim>\<open>src/network.js\<close> opens the
  connection and sends the login request; the answer arrives later, as an event.
\<close>

definition connect :: "argval \<Rightarrow> proc \<Rightarrow> proc" where
  "connect c s = (call (Connect c) s)\<lparr>connecting := True\<rparr>"

subsection \<open>The closures of main\<close>

text \<open>
  \<^verbatim>\<open>
  const close = () => {
      shutdownAllModules(); log('...', '...');
      const ws = getWs(); if (ws) ws.close();
      process.exit(0);
  }
  \<close>
\<close>

definition close :: "proc \<Rightarrow> proc" where
  "close =
     steps [shutdownAllModules, call (Log Disconnecting),
            (\<lambda>s. if socket s then call WsClose s else s),
            process_exit 0]"

text \<open>
  \<^verbatim>\<open>
  const onLoginSuccess = async () => {
      await processInviteCodes();
      startFarmCheckLoop();
      if (CONFIG.farmCheckInterval > 0) { startFriendCheckLoop(); }
      initTaskSystem();
      setTimeout(debugSellFruits, INITIAL_SELL_DELAY_MS);
      startSellLoop(SELL_LOOP_INTERVAL_MS);
  };
  \<close>
  The second entry point has the same function with the literals 5000 and 60000.
\<close>

definition onLoginSuccess :: "proc \<Rightarrow> proc" where
  "onLoginSuccess =
     steps [call ProcessInviteCodes,
            call StartFarmCheckLoop,
            (\<lambda>s. if farmCheckInterval (CONFIG s) > 0 then call StartFriendCheckLoop s else s),
            call InitTaskSystem,
            call (SetTimeout DebugSellFruits INITIAL_SELL_DELAY_MS),
            call (StartSellLoop SELL_LOOP_INTERVAL_MS)]"

text \<open>
  \<^verbatim>\<open>
  const onLoginError = async (err) => {
      logWarn('...', `...: ${err.message}`);
      log('Code...', '...');
      deleteCode();
      close()
  };
  \<close>
\<close>

definition onLoginError :: "exn \<Rightarrow> proc \<Rightarrow> proc" where
  "onLoginError err =
     steps [call (Log (LoginFailed (message err))),
            call (Log OldCodeInvalid),
            do_deleteCode,
            close]"

subsection \<open>main\<close>

text \<open>
  \<^verbatim>\<open>
  if (!options.code && CONFIG.platform === 'qq') {
      const savedCode = loadCode();
      if (savedCode) { log(...); options.code = savedCode; options.useSavedCode = true; }
  }
  \<close>
\<close>

definition main_saved :: "proc \<Rightarrow> proc" where
  "main_saved s =
     (if \<not> truthy (code (opts s)) \<and> platform (CONFIG s) = ''qq'' then
        (case loadCode (files s) of
           (Inl e, w) \<Rightarrow> uncaught e ((call CallLoadCode s)\<lparr>files := w\<rparr>)
         | (Inr savedCode, w) \<Rightarrow>
             (let s1 = (call CallLoadCode s)\<lparr>files := w\<rparr> in
              case savedCode of
                None \<Rightarrow> s1
              | Some c \<Rightarrow>
                  if c \<noteq> [] then
                    (call (Log SavedCodeDetected) s1)
                      \<lparr>opts := (opts s1)\<lparr>code := AStr c, useSavedCode := True\<rparr>\<rparr>
                  else s1))
      else s)"

text \<open>
  \<^verbatim>\<open>
  if (!options.code && CONFIG.platform === 'qq' && (options.qrLogin || !args.includes('--code'))) {
      options.code = await acquireCodeByQrScan('...');
      usedQrLogin = true;
  }
  \<close>
  A rejected scan rejects \<^verbatim>\<open>main()\<close>, whose \<^verbatim>\<open>catch\<close> logs the error and exits with 1.
\<close>

definition main_scan :: "string list \<Rightarrow> proc \<Rightarrow> proc" where
  "main_scan args s =
     (if \<not> truthy (code (opts s)) \<and> platform (CONFIG s) = ''qq'' \<and>
         (qrLogin (opts s) \<or> ''--code'' \<notin> set args) then
        (case acquireCodeByQrScan QrAcquiring s of
           (Inl e, s1) \<Rightarrow> steps [call (Log (StartFailed (message e))), process_exit 1] s1
         | (Inr c, s1) \<Rightarrow> s1\<lparr>opts := (opts s1)\<lparr>code := AStr c\<rparr>, usedQrLogin := True\<rparr>)
      else s)"

text \<open>
  \<^verbatim>\<open>
  if (!options.code) {
      if (CONFIG.platform === 'wx') { log(...); }
      showHelp(); process.exit(1);
  }
  \<close>
  The check of \<^verbatim>\<open>options.deleteAccountMode\<close> that follows never fires: nothing sets it.
\<close>

definition main_validate :: "proc \<Rightarrow> proc" where
  "main_validate s =
     (if \<not> truthy (code (opts s)) then
        steps [(\<lambda>s. if platform (CONFIG s) = ''wx'' then call (Log WxNeedsCode) s else s),
               call ShowHelp, process_exit 1] s
      else s)"

text \<open>
  The normal mode of \<^verbatim>\<open>main\<close>, from \<^verbatim>\<open>getArgsMap(args)\<close> to the registration of the two
  listeners.
\<close>

definition main_run :: "string list \<Rightarrow> env \<Rightarrow> proc \<Rightarrow> proc" where
  "main_run args e s =
     (let parsed = parseArgs e (getArgsMap args) (CONFIG s) in
      steps [main_saved,
             main_scan args,
             main_validate,
             (\<lambda>s. if usedQrLogin s then clearScreen s else s),
             call InitStatusBar,
             (\<lambda>s. call (SetStatusPlatform (platform (CONFIG s))) s),
             call EmitRuntimeHint,
             (\<lambda>s. call (Log (Startup (code (opts s)))) s),
             (\<lambda>s. connect (code (opts s)) s),
             (\<lambda>s. s\<lparr>disconnected_listener := True\<rparr>),
             (\<lambda>s. s\<lparr>sigint_listener := True\<rparr>)]
        (s\<lparr>CONFIG := snd parsed, opts := fst parsed, usedQrLogin := False\<rparr>))"

text \<open>
  \<^verbatim>\<open>
  await loadProto();
  if (args.includes('--verify')) { await verifyMode(); return; }
  if (args.includes('--decode')) { await decodeMode(args); return; }
  \<close>
\<close>

definition main :: "string list \<Rightarrow> env \<Rightarrow> proc \<Rightarrow> proc" where
  "main args e s =
     (let s1 = call LoadProto s in
      if ''--verify'' \<in> set args then call VerifyMode s1
      else if ''--decode'' \<in> set args then call (DecodeMode args) s1
      else main_run args e s1)"

subsection \<open>Events\<close>

text \<open>
  What reaches the process after \<^verbatim>\<open>main\<close>: the answer to a login, the
  \<^verbatim>\<open>disconnected\<close> event of \<^verbatim>\<open>networkEvents\<close> with its close code, and the signal SIGINT.
\<close>

datatype event = LoginOk | LoginRejected string | Disconnected int | SIGINT

text \<open>
  Modelled from the spec: \<^verbatim>\<open>src/network.js\<close> is missing, and with it what \<^verbatim>\<open>connect\<close> does
  with its callbacks. By the specification of the session, a successful login response
  invokes the success callback, and a login failure invokes the failure callback with an
  error carrying the reason the server reported; each login is answered once.

  A \<^verbatim>\<open>once\<close> listener is removed when its event fires. SIGINT without a listener kills
  the process. An exited process handles no event.
\<close>

definition step :: "event \<Rightarrow> proc \<Rightarrow> proc" where
  "step ev s =
     (if exit_code s \<noteq> None then s
      else case ev of
        LoginOk \<Rightarrow>
          if connecting s then onLoginSuccess (s\<lparr>connecting := False\<rparr>) else s
      | LoginRejected reason \<Rightarrow>
          if connecting s then onLoginError (Error reason) (s\<lparr>connecting := False\<rparr>) else s
      | Disconnected c \<Rightarrow>
          if disconnected_listener s then
            steps [call (Log (ConnectionClosed c)), close] (s\<lparr>disconnected_listener := False\<rparr>)
          else s
      | SIGINT \<Rightarrow>
          if sigint_listener s then close s else s\<lparr>exit_code := Some 130\<rparr>)"

definition run :: "event list \<Rightarrow> proc \<Rightarrow> proc" where
  "run evs s = foldl (\<lambda>s ev. step ev s) s evs"

section \<open>The second entry point (src/unnamed/part_000)\<close>

text \<open>
  The sources hold a second version of the entry point. Its \<^verbatim>\<open>getArgsMap\<close>,
  \<^verbatim>\<open>parseArgs\<close> and \<^verbatim>\<open>onLoginSuccess\<close> are those above; it has no listener for
  \<^verbatim>\<open>disconnected\<close>, its SIGINT handler is written out in place, and its
  \<^verbatim>\<open>onLoginError\<close> tries again:
  \<^verbatim>\<open>
  let loginAttemptCount = 0;
  const onLoginError = async (err) => {
      loginAttemptCount++;
      console.log(`... ${err.message}`);
      if (options.useSavedCode && loginAttemptCount === 1) {
          console.log('...'); deleteCode();
          await sleep(1000);
          if (CONFIG.platform === 'qq') {
              console.log('...');
              try {
                  options.code = await getQQFarmCodeByScan();
                  console.log(...); saveCode(options.code);
                  options.useSavedCode = false;
                  if (process.stdout.isTTY) { process.stdout.write('\x1b[2J\x1b[H'); }
                  console.log(...);
                  connect(options.code, onLoginSuccess, onLoginError);
              } catch (scanErr) { console.error('...', scanErr.message); process.exit(1); }
          }
      } else { console.log('...'); process.exit(1); }
  };
  \<close>
\<close>

definition rescan_p0 :: "proc \<Rightarrow> proc" where
  "rescan_p0 s =
     (let s1 = call GetQQFarmCodeByScan (call (Log QrReacquiring) s) in
      case qr_scan s1 of
        Inl scanErr \<Rightarrow> steps [call (Log (QrFailed (message scanErr))), process_exit 1] s1
      | Inr c \<Rightarrow>
          steps [(\<lambda>s. s\<lparr>opts := (opts s)\<lparr>code := AStr c\<rparr>\<rparr>),
                 call (Log (QrAcquired c)),
                 do_saveCode c,
                 (\<lambda>s. s\<lparr>opts := (opts s)\<lparr>useSavedCode := False\<rparr>\<rparr>),
                 clearScreen,
                 (\<lambda>s. call (Log (Startup (code (opts s)))) s),
                 (\<lambda>s. connect (code (opts s)) s)] s1)"

definition onLoginError_p0 :: "exn \<Rightarrow> proc \<Rightarrow> proc" where
  "onLoginError_p0 err =
     steps [(\<lambda>s. s\<lparr>loginAttemptCount := loginAttemptCount s + 1\<rparr>),
            call (Log (LoginFailed (message err))),
            (\<lambda>s. if useSavedCode (opts s) \<and> loginAttemptCount s = 1 then
                   steps [call (Log OldCodeInvalid),
                          do_deleteCode,
                          call (Sleep 1000),
                          (\<lambda>s. if platform (CONFIG s) = ''qq'' then rescan_p0 s else s)] s
                 else steps [call (Log Unrecoverable), process_exit 1] s)]"

text \<open>
  \<^verbatim>\<open>
  process.on('SIGINT', () => {
      cleanupStatusBar(); console.log('...');
      stopFarmCheckLoop(); stopFriendCheckLoop(); cleanupTaskSystem(); stopSellLoop();
      cleanup();
      const ws = getWs(); if (ws) ws.close();
      process.exit(0);
  });
  \<close>
\<close>

definition sigint_p0 :: "proc \<Rightarrow> proc" where
  "sigint_p0 =
     steps [call CleanupStatusBar, call (Log Disconnecting),
            call StopFarmCheckLoop, call StopFriendCheckLoop, call CleanupTaskSystem,
            call StopSellLoop, call Cleanup,
            (\<lambda>s. if socket s then call WsClose s else s),
            process_exit 0]"

text \<open>
  Modelled from the spec: the answers to a login reach the callbacks as in \<open>step\<close>. Nothing
  listens to \<^verbatim>\<open>disconnected\<close> here.
\<close>

definition step_p0 :: "event \<Rightarrow> proc \<Rightarrow> proc" where
  "step_p0 ev s =
     (if exit_code s \<noteq> None then s
      else case ev of
        LoginOk \<Rightarrow>
          if connecting s then onLoginSuccess (s\<lparr>connecting := False\<rparr>) else s
      | LoginRejected reason \<Rightarrow>
          if connecting s then onLoginError_p0 (Error reason) (s\<lparr>connecting := False\<rparr>) else s
      | Disconnected c \<Rightarrow> s
      | SIGINT \<Rightarrow>
          if sigint_listener s then sigint_p0 s else s\<lparr>exit_code := Some 130\<rparr>)"

definition run_p0 :: "event list \<Rightarrow> proc \<Rightarrow> proc" where
  "run_p0 evs s = foldl (\<lambda>s ev. step_p0 ev s) s evs"

section \<open>Observations on a trace\<close>

text \<open>The calls a function adds to the trace of a state.\<close>

definition calls_of :: "(proc \<Rightarrow> proc) \<Rightarrow> proc \<Rightarrow> action list" where
  "calls_of f s = drop (length (trace s)) (trace (f s))"

text \<open>The calls that start an automation loop, and the calls of \<^verbatim>\<open>connect\<close>.\<close>

fun starts_loop :: "action \<Rightarrow> bool" where
  "starts_loop StartFarmCheckLoop = True"
| "starts_loop StartFriendCheckLoop = True"
| "starts_loop InitTaskSystem = True"
| "starts_loop (StartSellLoop n) = True"
| "starts_loop a = False"

fun is_connect :: "action \<Rightarrow> bool" where
  "is_connect (Connect c) = True"
| "is_connect a = False"

fun is_connection_closed :: "action \<Rightarrow> bool" where
  "is_connection_closed (Log (ConnectionClosed c)) = True"
| "is_connection_closed a = False"

fun is_timer :: "action \<Rightarrow> bool" where
  "is_timer (SetTimeout cb ms) = True"
| "is_timer a = False"

fun is_sell_loop :: "action \<Rightarrow> bool" where
  "is_sell_loop (StartSellLoop ms) = True"
| "is_sell_loop a = False"

text \<open>
  How often the listener of \<^verbatim>\<open>disconnected\<close> has run, by the line it logs first, and
  whether it can still run.
\<close>

definition handler_runs :: "proc \<Rightarrow> nat" where
  "handler_runs s = length (filter is_connection_closed (trace s))"

definition handler_armed :: "proc \<Rightarrow> nat" where
  "handler_armed s = (if disconnected_listener s \<and> exit_code s = None then 1 else 0)"

text \<open>
  What \<^verbatim>\<open>main\<close> gets from \<^verbatim>\<open>parseArgs(getArgsMap(args))\<close>: the explicit credential
  (\<^verbatim>\<open>options.code\<close> on return), the \<^verbatim>\<open>--qr\<close> option and the configuration.
\<close>

definition explicit_code :: "string list \<Rightarrow> env \<Rightarrow> proc \<Rightarrow> argval" where
  "explicit_code args e s = code (fst (parseArgs e (getArgsMap args) (CONFIG s)))"

definition qr_option :: "string list \<Rightarrow> env \<Rightarrow> proc \<Rightarrow> bool" where
  "qr_option args e s = qrLogin (fst (parseArgs e (getArgsMap args) (CONFIG s)))"

definition configured :: "string list \<Rightarrow> env \<Rightarrow> proc \<Rightarrow> config" where
  "configured args e s = snd (parseArgs e (getArgsMap args) (CONFIG s))"

text \<open>The start-up calls of \<^verbatim>\<open>main\<close> from the status bar to \<^verbatim>\<open>connect\<close>, for a credential.\<close>

definition startup_calls :: "config \<Rightarrow> argval \<Rightarrow> action list" where
  "startup_calls cfg c =
     [InitStatusBar, SetStatusPlatform (platform cfg), EmitRuntimeHint, Log (Startup c),
      Connect c]"

text \<open>
  The logins a process has started, and the retries the second entry point still has: one
  while a saved credential is in use and no login has failed yet.
\<close>

definition connects :: "proc \<Rightarrow> nat" where
  "connects s = length (filter is_connect (trace s))"

definition retry_budget :: "proc \<Rightarrow> nat" where
  "retry_budget s =
     (if useSavedCode (opts s) \<and> loginAttemptCount s = 0 \<and> exit_code s = None then 1 else 0)"

section \<open>Example inputs\<close>

text \<open>A file system without the credential file and without faults.\<close>

definition fs0 :: fsys where
  "fs0 = \<lparr>code_file = None, write_error = None, read_error = None, unlink_error = None,
          console = []\<rparr>"

text \<open>
  A configuration with the defaults the help text names (10 seconds and 1 second, on QQ), an
  empty environment, and a process before \<^verbatim>\<open>main\<close>: nothing called yet, a socket present,
  no terminal, and a QR scan that would yield the code \<open>''scanned''\<close>.
\<close>

definition cfg0 :: config where
  "cfg0 = \<lparr>platform = ''qq'', farmCheckInterval = 10000, friendCheckInterval = 1000\<rparr>"

definition env0 :: env where
  "env0 = \<lparr>env_CODE = None, env_PLATFORM = None, env_QR_LOGIN = None, env_INTERVAL = None,
           env_FRIEND_INTERVAL = None\<rparr>"

definition proc0 :: proc where
  "proc0 =
     \<lparr>CONFIG = cfg0, files = fs0, trace = [],
      opts = \<lparr>code = AStr [], qrLogin = False, useSavedCode = False\<rparr>,
      usedQrLogin = False, exit_code = None,
      disconnected_listener = False, sigint_listener = False, connecting = False,
      socket = True, isTTY = False, qr_scan = Inr ''scanned'', loginAttemptCount = 0\<rparr>"

text \<open>The process after \<^verbatim>\<open>node client.js --code abc123\<close> and a successful login.\<close>

definition logged_in :: proc where
  "logged_in = run [LoginOk] (main [''--code'', ''abc123''] env0 proc0)"

text \<open>
  A process that finds the credential \<open>''saved''\<close> in the credential file, and its state
  after \<^verbatim>\<open>node client.js\<close> has connected with it.
\<close>

definition saved_proc :: proc where
  "saved_proc = proc0\<lparr>files := fs0\<lparr>code_file := Some ''saved''\<rparr>\<rparr>"

definition saved_login :: proc where
  "saved_login = main [] env0 saved_proc"

section \<open>Properties of the credential file\<close>
lemma leadingWs_None: "\<forall>w\<in>set whiteSpace. \<not> prefix w s \<Longrightarrow> leadingWs s = None"
  by (simp add: leadingWs_def find_None_iff)

lemma trailingWs_None: "\<forall>w\<in>set whiteSpace. \<not> suffix w s \<Longrightarrow> trailingWs s = None"
  by (simp add: trailingWs_def find_None_iff)

lemma trim_id:
  assumes "\<forall>w\<in>set whiteSpace. \<not> prefix w s \<and> \<not> suffix w s"
  shows "trim s = s"
proof -
  have "trimStart s = s" using assms by (simp add: leadingWs_None)
  moreover have "trimEnd s = s" using assms by (simp add: trailingWs_None)
  ultimately show ?thesis by (simp add: trim_def)
qed

text \<open>No white space code point's encoding starts another's: the first one of a string is unique.\<close>

lemma whiteSpace_prefix_free_all:
  "\<forall>w\<in>set whiteSpace. leadingWs (w @ s) = Some w"
  by (simp add: whiteSpace_def leadingWs_def)

lemma whiteSpace_prefix_free:
  "w \<in> set whiteSpace \<Longrightarrow> leadingWs (w @ s) = Some w"
  using whiteSpace_prefix_free_all by blast

lemma trimStart_concat:
  "set sp \<subseteq> set whiteSpace \<Longrightarrow> trimStart (concat sp) = []"
proof (induction sp)
  case Nil
  show ?case by (simp add: leadingWs_def whiteSpace_def)
next
  case (Cons w sp)
  then have "leadingWs (w @ concat sp) = Some w"
    by (simp add: whiteSpace_prefix_free)
  with Cons show ?case by simp
qed

lemma trim_whitespaceOnly: "whitespaceOnly s \<Longrightarrow> trim s = []"
proof -
  assume "whitespaceOnly s"
  then obtain sp where "set sp \<subseteq> set whiteSpace" and "concat sp = s"
    by (auto simp: whitespaceOnly_def)
  then have "trimStart s = []" using trimStart_concat by blast
  moreover have "trimEnd [] = []" by (simp add: trailingWs_def whiteSpace_def)
  ultimately show ?thesis by (simp add: trim_def)
qed

lemma saveCode_ok: "write_error w = None \<Longrightarrow> saveCode c w = (Inr (), w\<lparr>code_file := Some c\<rparr>)"
  by (simp add: saveCode_def writeFileSync_def)

lemma loadCode_content:
  "code_file w = Some data \<Longrightarrow> read_error w = None \<Longrightarrow>
   loadCode w = (Inr (if trim data \<noteq> [] then Some (trim data) else None), w)"
  by (simp add: loadCode_def existsSync_def readFileSync_def Let_def)

lemma loadCode_absent: "code_file w = None \<Longrightarrow> loadCode w = (Inr None, w)"
  by (simp add: loadCode_def existsSync_def)

lemma loadCode_read_error:
  "code_file w \<noteq> None \<Longrightarrow> read_error w = Some m \<Longrightarrow>
   loadCode w = (Inr None, w\<lparr>console := console w @ [LoadCodeFailed m]\<rparr>)"
  by (simp add: loadCode_def existsSync_def readFileSync_def console_warn_def)

text \<open>
  Claim C8. A credential that is not empty and neither starts nor ends with a white space
  code point is what \<open>loadCode\<close> returns after \<open>saveCode\<close> stored it, on a file system
  that accepts the write and the read. \<open>loadCode\<close> returns \<^verbatim>\<open>null\<close> when the file does not
  exist, and when its content is empty or white space only.
\<close>

theorem loadCode_saveCode_roundtrip:
  "(c \<noteq> [] \<and> (\<forall>sp\<in>set whiteSpace. \<not> prefix sp c \<and> \<not> suffix sp c) \<and>
      write_error w = None \<and> read_error w = None
      \<longrightarrow> fst (loadCode (snd (saveCode c w))) = Inr (Some c)) \<and>
   (code_file w = None \<longrightarrow> fst (loadCode w) = Inr None) \<and>
   (code_file w = Some data \<and> whitespaceOnly data \<longrightarrow> fst (loadCode w) = Inr None)"
proof (intro conjI impI)
  assume a: "c \<noteq> [] \<and> (\<forall>sp\<in>set whiteSpace. \<not> prefix sp c \<and> \<not> suffix sp c) \<and>
      write_error w = None \<and> read_error w = None"
  then have "trim c = c" by (simp add: trim_id)
  with a show "fst (loadCode (snd (saveCode c w))) = Inr (Some c)"
    by (simp add: saveCode_ok loadCode_content)
next
  assume "code_file w = None"
  then show "fst (loadCode w) = Inr None" by (simp add: loadCode_absent)
next
  assume a: "code_file w = Some data \<and> whitespaceOnly data"
  then have t: "trim data = []" by (simp add: trim_whitespaceOnly)
  show "fst (loadCode w) = Inr None"
  proof (cases "read_error w")
    case None
    with a t show ?thesis by (simp add: loadCode_content)
  next
    case (Some m)
    with a show ?thesis by (simp add: loadCode_read_error)
  qed
qed

lemma whitespaceOnly_example: "whitespaceOnly [CHR 0x20, CHR 0x0A, CHR 0xC2, CHR 0xA0]"
  unfolding whitespaceOnly_def
  by (rule exI [of _ "[[CHR 0x20], [CHR 0x0A], [CHR 0xC2, CHR 0xA0]]"]) (simp add: whiteSpace_def)

theorem loadCode_saveCode_roundtrip_witness:
  "fst (loadCode (snd (saveCode ''a1B2 c3'' fs0))) = Inr (Some ''a1B2 c3'') \<and>
   fst (loadCode fs0) = Inr None \<and>
   fst (loadCode (fs0\<lparr>code_file := Some [CHR 0x20, CHR 0x0A, CHR 0xC2, CHR 0xA0]\<rparr>)) = Inr None"
proof -
  have h: "\<forall>sp\<in>set whiteSpace. \<not> prefix sp ''a1B2 c3'' \<and> \<not> suffix sp ''a1B2 c3''"
    by (simp add: whiteSpace_def suffix_to_prefix)
  have 1: "fst (loadCode (snd (saveCode ''a1B2 c3'' fs0))) = Inr (Some ''a1B2 c3'')"
    using loadCode_saveCode_roundtrip [of "''a1B2 c3''" fs0] h by (simp add: fs0_def)
  have 2: "fst (loadCode fs0) = Inr None"
    using loadCode_saveCode_roundtrip [of _ fs0] by (simp add: fs0_def)
  have 3: "fst (loadCode (fs0\<lparr>code_file := Some [CHR 0x20, CHR 0x0A, CHR 0xC2, CHR 0xA0]\<rparr>)) = Inr None"
    using loadCode_saveCode_roundtrip
      [of _ "fs0\<lparr>code_file := Some [CHR 0x20, CHR 0x0A, CHR 0xC2, CHR 0xA0]\<rparr>"
          "[CHR 0x20, CHR 0x0A, CHR 0xC2, CHR 0xA0]"]
      whitespaceOnly_example by simp
  from 1 2 3 show ?thesis by simp
qed

lemma saveCode_returns: "\<exists>w'. saveCode c w = (Inr (), w')"
  by (cases "write_error w") (simp_all add: saveCode_def writeFileSync_def console_warn_def)

lemma loadCode_returns: "\<exists>r w'. loadCode w = (Inr r, w')"
  by (cases "read_error w"; cases "code_file w")
     (simp_all add: loadCode_def existsSync_def readFileSync_def console_warn_def Let_def)

lemma deleteCode_returns: "\<exists>w'. deleteCode w = (Inr (), w')"
  by (cases "unlink_error w"; cases "code_file w")
     (simp_all add: deleteCode_def existsSync_def unlinkSync_def console_warn_def)

lemma deleteCode_absent: "code_file w = None \<Longrightarrow> deleteCode w = (Inr (), w)"
  by (simp add: deleteCode_def existsSync_def)

lemma deleteCode_code_file:
  "code_file (snd (deleteCode w)) = (if unlink_error w = None then None else code_file w)"
  by (cases "unlink_error w"; cases "code_file w")
     (simp_all add: deleteCode_def existsSync_def unlinkSync_def console_warn_def)

lemma deleteCode_unlink_error: "unlink_error (snd (deleteCode w)) = unlink_error w"
  by (cases "unlink_error w"; cases "code_file w")
     (simp_all add: deleteCode_def existsSync_def unlinkSync_def console_warn_def)

text \<open>
  Claim C10. \<open>saveCode\<close>, \<open>loadCode\<close> and \<open>deleteCode\<close> return normally on every file
  system, whatever fault it raises; \<open>loadCode\<close> returns \<^verbatim>\<open>null\<close> when the read throws.
  \<open>deleteCode\<close> on an absent file changes nothing, a second call right after a successful one
  changes nothing, and in every case the second call leaves the file as the first left it.
\<close>

theorem codeManager_never_throws:
  "(\<exists>w'. saveCode c w = (Inr (), w')) \<and>
   (\<exists>r w'. loadCode w = (Inr r, w')) \<and>
   (\<exists>w'. deleteCode w = (Inr (), w')) \<and>
   (code_file w \<noteq> None \<and> read_error w \<noteq> None \<longrightarrow> fst (loadCode w) = Inr None) \<and>
   (code_file w = None \<longrightarrow> deleteCode w = (Inr (), w)) \<and>
   (unlink_error w = None \<longrightarrow>
      deleteCode (snd (deleteCode w)) = (Inr (), snd (deleteCode w))) \<and>
   code_file (snd (deleteCode (snd (deleteCode w)))) = code_file (snd (deleteCode w))"
proof (intro conjI impI)
  show "\<exists>w'. saveCode c w = (Inr (), w')" by (rule saveCode_returns)
  show "\<exists>r w'. loadCode w = (Inr r, w')" by (rule loadCode_returns)
  show "\<exists>w'. deleteCode w = (Inr (), w')" by (rule deleteCode_returns)
  show "fst (loadCode w) = Inr None" if "code_file w \<noteq> None \<and> read_error w \<noteq> None"
    using that by (auto simp: loadCode_read_error)
  show "deleteCode w = (Inr (), w)" if "code_file w = None"
    using that by (rule deleteCode_absent)
  show "deleteCode (snd (deleteCode w)) = (Inr (), snd (deleteCode w))" if "unlink_error w = None"
    using that by (simp add: deleteCode_absent deleteCode_code_file)
  show "code_file (snd (deleteCode (snd (deleteCode w)))) = code_file (snd (deleteCode w))"
    by (simp add: deleteCode_code_file deleteCode_unlink_error)
qed

theorem codeManager_never_throws_witness:
  "saveCode ''abc'' (fs0\<lparr>write_error := Some ''EACCES''\<rparr>)
     = (Inr (), fs0\<lparr>write_error := Some ''EACCES'', console := [SaveCodeFailed ''EACCES'']\<rparr>) \<and>
   fst (loadCode (fs0\<lparr>code_file := Some ''abc'', read_error := Some ''EIO''\<rparr>)) = Inr None \<and>
   deleteCode fs0 = (Inr (), fs0) \<and>
   deleteCode (snd (deleteCode (fs0\<lparr>code_file := Some ''abc''\<rparr>)))
     = (Inr (), snd (deleteCode (fs0\<lparr>code_file := Some ''abc''\<rparr>))) \<and>
   snd (deleteCode (fs0\<lparr>code_file := Some ''abc''\<rparr>)) = fs0"
proof -
  have 1: "saveCode ''abc'' (fs0\<lparr>write_error := Some ''EACCES''\<rparr>)
     = (Inr (), fs0\<lparr>write_error := Some ''EACCES'', console := [SaveCodeFailed ''EACCES'']\<rparr>)"
    using codeManager_never_throws [of "''abc''" "fs0\<lparr>write_error := Some ''EACCES''\<rparr>"]
    by (simp add: fs0_def saveCode_def writeFileSync_def console_warn_def)
  have 2: "fst (loadCode (fs0\<lparr>code_file := Some ''abc'', read_error := Some ''EIO''\<rparr>)) = Inr None"
    using codeManager_never_throws [of _ "fs0\<lparr>code_file := Some ''abc'', read_error := Some ''EIO''\<rparr>"]
    by simp
  have 3: "deleteCode fs0 = (Inr (), fs0)"
    using codeManager_never_throws [of _ fs0] by (simp add: fs0_def)
  have 4: "deleteCode (snd (deleteCode (fs0\<lparr>code_file := Some ''abc''\<rparr>)))
     = (Inr (), snd (deleteCode (fs0\<lparr>code_file := Some ''abc''\<rparr>)))"
    using codeManager_never_throws [of _ "fs0\<lparr>code_file := Some ''abc''\<rparr>"] by (simp add: fs0_def)
  have 5: "snd (deleteCode (fs0\<lparr>code_file := Some ''abc''\<rparr>)) = fs0"
    by (simp add: fs0_def deleteCode_def existsSync_def unlinkSync_def)
  from 1 2 3 4 5 show ?thesis by simp
qed

section \<open>Properties of the argument map\<close>

lemma getArgsMap_loop_last:
  "prefix ''--'' k \<Longrightarrow> getArgsMap_loop (xs @ [k]) m = getArgsMap_loop xs m"
  by (induction xs m rule: getArgsMap_loop.induct) auto

lemma Map_set_keys:
  "map fst (Map_set k v m) = (if k \<in> fst ` set m then map fst m else map fst m @ [k])"
  by (induction m) force+

lemma Map_set_keys_set: "fst ` set (Map_set k v m) = insert k (fst ` set m)"
proof -
  have "set (map fst (Map_set k v m)) = insert k (set (map fst m))"
    unfolding Map_set_keys by auto
  then show ?thesis by simp
qed

lemma getArgsMap_loop_keys:
  "fst ` set (getArgsMap_loop xs m) \<subseteq> set xs \<union> fst ` set m"
proof (induction xs m rule: getArgsMap_loop.induct)
  case (1 m)
  show ?case by simp
next
  case (2 key m)
  show ?case by (auto simp: Map_set_keys_set simp del: image_insert)
next
  case (3 key "value" rest m)
  show ?case
  proof (cases "prefix ''--'' key")
    case False
    with 3 show ?thesis unfolding Map_set_keys_set by auto
  next
    case True
    with 3 show ?thesis unfolding Map_set_keys_set by (cases "prefix ''--'' value") auto
  qed
qed


lemma getArgsMap_loop_append:
  "key_position pre \<Longrightarrow>
   getArgsMap_loop (pre @ xs) m = getArgsMap_loop xs (getArgsMap_loop pre m)"
proof (induction pre m rule: getArgsMap_loop.induct)
  case (1 m)
  show ?case by simp
next
  case (2 key m)
  then show ?case by (cases xs) simp_all
next
  case (3 key "value" rest m)
  then show ?case by (simp split: if_splits)
qed

text \<open>
  Claim C9, amended. A last argument that starts with \<^verbatim>\<open>--\<close> adds nothing to the map: the
  result is that of the arguments before it, so the flag is no key of the map unless an
  earlier argument put it there. When the loop reads an argument starting with \<^verbatim>\<open>--\<close> as a
  key (it is the first argument, or more generally the loop stands at it, which it does not
  when the argument before was a key that took it as its value) and the next argument
  starts with \<^verbatim>\<open>--\<close> too, the loop goes on after the second with the map unchanged: neither
  of the two is recorded.
\<close>

theorem getArgsMap_flags_lost:
  "(prefix ''--'' k \<longrightarrow> getArgsMap (xs @ [k]) = getArgsMap xs) \<and>
   (prefix ''--'' k \<and> k \<notin> set xs \<longrightarrow> k \<notin> set (map fst (getArgsMap (xs @ [k])))) \<and>
   (prefix ''--'' k1 \<and> prefix ''--'' k2 \<longrightarrow>
      getArgsMap_loop (k1 # k2 # rest) m = getArgsMap_loop rest m \<and>
      getArgsMap (k1 # k2 # rest) = getArgsMap rest) \<and>
   (key_position pre \<and> prefix ''--'' k1 \<and> prefix ''--'' k2 \<longrightarrow>
      getArgsMap (pre @ k1 # k2 # rest) = getArgsMap_loop rest (getArgsMap pre))"
proof (intro conjI impI)
  assume "prefix ''--'' k"
  then show "getArgsMap (xs @ [k]) = getArgsMap xs"
    by (simp add: getArgsMap_def getArgsMap_loop_last)
next
  assume a: "prefix ''--'' k \<and> k \<notin> set xs"
  then have "getArgsMap (xs @ [k]) = getArgsMap xs"
    by (simp add: getArgsMap_def getArgsMap_loop_last)
  moreover have "fst ` set (getArgsMap xs) \<subseteq> set xs"
    using getArgsMap_loop_keys [of xs "[]"] by (simp add: getArgsMap_def)
  ultimately show "k \<notin> set (map fst (getArgsMap (xs @ [k])))"
    using a by auto
next
  assume "prefix ''--'' k1 \<and> prefix ''--'' k2"
  then show "getArgsMap_loop (k1 # k2 # rest) m = getArgsMap_loop rest m" by simp
next
  assume "prefix ''--'' k1 \<and> prefix ''--'' k2"
  then show "getArgsMap (k1 # k2 # rest) = getArgsMap rest" by (simp add: getArgsMap_def)
next
  assume "key_position pre \<and> prefix ''--'' k1 \<and> prefix ''--'' k2"
  then show "getArgsMap (pre @ k1 # k2 # rest) = getArgsMap_loop rest (getArgsMap pre)"
    by (simp add: getArgsMap_def getArgsMap_loop_append)
qed

theorem getArgsMap_flags_lost_witness:
  "getArgsMap [''--code'', ''abc'', ''--wx''] = getArgsMap [''--code'', ''abc''] \<and>
   getArgsMap [''--code'', ''abc'', ''--wx''] = [(''--code'', AStr ''abc'')] \<and>
   ''--wx'' \<notin> set (map fst (getArgsMap [''--code'', ''abc'', ''--wx''])) \<and>
   getArgsMap [''--wx'', ''--code'', ''abc''] = getArgsMap [''abc''] \<and>
   getArgsMap [''--wx'', ''--code'', ''abc''] = [(''abc'', ATrue)] \<and>
   getArgsMap [''--interval'', ''15'', ''--wx'', ''--code'', ''abc'']
     = [(''--interval'', AStr ''15''), (''abc'', ATrue)]"
proof -
  have 1: "getArgsMap [''--code'', ''abc'', ''--wx''] = getArgsMap [''--code'', ''abc'']"
    using getArgsMap_flags_lost [of "''--wx''" "[''--code'', ''abc'']"] by simp
  have p: "prefix ''--'' ''--wx'' \<and> ''--wx'' \<notin> set [''--code'', ''abc'']"
    by simp
  have "''--wx'' \<notin> set (map fst (getArgsMap ([''--code'', ''abc''] @ [''--wx''])))"
    using getArgsMap_flags_lost [of "''--wx''" "[''--code'', ''abc'']"] p by blast
  then have 2: "''--wx'' \<notin> set (map fst (getArgsMap [''--code'', ''abc'', ''--wx'']))"
    by simp
  have 3: "getArgsMap [''--wx'', ''--code'', ''abc''] = getArgsMap [''abc'']"
    using getArgsMap_flags_lost [of _ _ "''--wx''" "''--code''" "[''abc'']"] by simp
  have 4: "getArgsMap [''--code'', ''abc''] = [(''--code'', AStr ''abc'')]"
    and 5: "getArgsMap [''abc''] = [(''abc'', ATrue)]"
    by (simp_all add: getArgsMap_def)
  have q: "key_position [''--interval'', ''15''] \<and> prefix ''--'' ''--wx'' \<and>
           prefix ''--'' ''--code''"
    by simp
  have "getArgsMap ([''--interval'', ''15''] @ ''--wx'' # ''--code'' # [''abc''])
      = getArgsMap_loop [''abc''] (getArgsMap [''--interval'', ''15''])"
    using getArgsMap_flags_lost
      [where pre = "[''--interval'', ''15'']" and ?k1.0 = "''--wx''" and ?k2.0 = "''--code''"
         and rest = "[''abc'']"] q
    by blast
  then have 6: "getArgsMap [''--interval'', ''15'', ''--wx'', ''--code'', ''abc'']
      = [(''--interval'', AStr ''15''), (''abc'', ATrue)]"
    by (simp add: getArgsMap_def)
  from 1 2 3 4 5 6 show ?thesis by simp
qed

text \<open>
  As first worded, the claim spoke of every argument starting with \<^verbatim>\<open>--\<close> that is followed
  by another one. That fails when the first of the two is itself taken as the value of the
  key before it: in \<^verbatim>\<open>--a --b --c v\<close> the key \<^verbatim>\<open>--a\<close> takes \<^verbatim>\<open>--b\<close>, so the loop
  stands at \<^verbatim>\<open>--c\<close>, reads it as a key and records it, although it follows \<^verbatim>\<open>--b\<close>. The
  same happens to \<^verbatim>\<open>--code\<close> in \<^verbatim>\<open>--qr --wx --code abc\<close>.
\<close>

theorem getArgsMap_second_flag_recorded:
  "prefix ''--'' ''--b'' \<and> prefix ''--'' ''--c'' \<and>
   \<not> key_position [''--a''] \<and>
   getArgsMap [''--a'', ''--b'', ''--c'', ''v''] = [(''--c'', AStr ''v'')] \<and>
   getArgsMap [''--qr'', ''--wx'', ''--code'', ''abc''] = [(''--code'', AStr ''abc'')]"
  by (simp add: getArgsMap_def)

section \<open>Properties of parseArgs\<close>

lemma parseArgs_case_intervals:
  "farmCheckInterval (ps_CONFIG (parseArgs_case st kv)) = farmCheckInterval (ps_CONFIG st) \<and>
   friendCheckInterval (ps_CONFIG (parseArgs_case st kv)) = friendCheckInterval (ps_CONFIG st)"
  by (simp add: parseArgs_case_def Let_def)

lemma foldl_parseArgs_case_intervals:
  "farmCheckInterval (ps_CONFIG (foldl parseArgs_case st am)) = farmCheckInterval (ps_CONFIG st) \<and>
   friendCheckInterval (ps_CONFIG (foldl parseArgs_case st am)) = friendCheckInterval (ps_CONFIG st)"
  by (induction am arbitrary: st) (simp_all add: parseArgs_case_intervals)

lemma parseArgs_locals_intervals:
  "farmCheckInterval (ps_CONFIG (parseArgs_locals e am cfg)) = farmCheckInterval cfg \<and>
   friendCheckInterval (ps_CONFIG (parseArgs_locals e am cfg)) = friendCheckInterval cfg"
  by (simp add: parseArgs_locals_def foldl_parseArgs_case_intervals parseArgs_env_def
        split: option.splits)

lemma parseArgs_case_interval:
  "ps_interval (parseArgs_case st (k, v)) =
     (if k = ''--interval'' then parseInt_arg v else ps_interval st)"
  by (simp add: parseArgs_case_def)

lemma foldl_parseArgs_case_interval:
  "distinct (map fst am) \<Longrightarrow>
   ps_interval (foldl parseArgs_case st am) =
     (case map_of am ''--interval'' of Some v \<Rightarrow> parseInt_arg v | None \<Rightarrow> ps_interval st)"
proof (induction am arbitrary: st)
  case Nil
  show ?case by simp
next
  case (Cons kv am)
  obtain k v where kv: "kv = (k, v)" by (cases kv)
  from Cons.prems have d: "distinct (map fst am)" by simp
  have unfold: "ps_interval (foldl parseArgs_case (parseArgs_case st (k, v)) am) =
      (case map_of am ''--interval'' of
         Some v' \<Rightarrow> parseInt_arg v' | None \<Rightarrow> ps_interval (parseArgs_case st (k, v)))"
    using Cons.IH [OF d, of "parseArgs_case st (k, v)"] by simp
  have none: "map_of am ''--interval'' = None" if "k = ''--interval''"
    using Cons.prems kv that by (auto simp: map_of_eq_None_iff)
  show ?case
    unfolding kv by (auto simp: unfold parseArgs_case_interval none split: option.splits)
qed

lemma parseArgs_case_friend_interval:
  "ps_friend_interval (parseArgs_case st (k, v)) =
     (if k = ''--friend-interval'' then parseInt_arg v else ps_friend_interval st)"
  by (simp add: parseArgs_case_def)

lemma foldl_parseArgs_case_friend_interval:
  "distinct (map fst am) \<Longrightarrow>
   ps_friend_interval (foldl parseArgs_case st am) =
     (case map_of am ''--friend-interval'' of Some v \<Rightarrow> parseInt_arg v | None \<Rightarrow> ps_friend_interval st)"
proof (induction am arbitrary: st)
  case Nil
  show ?case by simp
next
  case (Cons kv am)
  obtain k v where kv: "kv = (k, v)" by (cases kv)
  from Cons.prems have d: "distinct (map fst am)" by simp
  have unfold: "ps_friend_interval (foldl parseArgs_case (parseArgs_case st (k, v)) am) =
      (case map_of am ''--friend-interval'' of
         Some v' \<Rightarrow> parseInt_arg v' | None \<Rightarrow> ps_friend_interval (parseArgs_case st (k, v)))"
    using Cons.IH [OF d, of "parseArgs_case st (k, v)"] by simp
  have none: "map_of am ''--friend-interval'' = None" if "k = ''--friend-interval''"
    using Cons.prems kv that by (auto simp: map_of_eq_None_iff)
  show ?case
    unfolding kv by (auto simp: unfold parseArgs_case_friend_interval none split: option.splits)
qed



lemma apply_farm_eq:
  "farmCheckInterval (apply_farm i cfg) =
     (case i of None \<Rightarrow> farmCheckInterval cfg
      | Some n \<Rightarrow> if n \<noteq> 0 then max n 1 * 1000 else farmCheckInterval cfg) \<and>
   friendCheckInterval (apply_farm i cfg) = friendCheckInterval cfg \<and>
   platform (apply_farm i cfg) = platform cfg"
  by (cases i) (simp_all add: apply_farm_def)

lemma apply_friend_eq:
  "friendCheckInterval (apply_friend i cfg) =
     (case i of None \<Rightarrow> friendCheckInterval cfg
      | Some n \<Rightarrow> if n \<noteq> 0 then max n 1 * 1000 else friendCheckInterval cfg) \<and>
   farmCheckInterval (apply_friend i cfg) = farmCheckInterval cfg \<and>
   platform (apply_friend i cfg) = platform cfg"
  by (cases i) (simp_all add: apply_friend_def)

text \<open>
  Claim C4. When \<^verbatim>\<open>parseArgs\<close> applies an interval to the configuration (the value it
  read is a number other than zero), what it stores is \<open>max n 1 * 1000\<close>, at least one second;
  otherwise the stored interval stays. This holds for the own-farm and for the friend
  interval. The value read is that of \<^verbatim>\<open>--interval\<close> (\<^verbatim>\<open>--friend-interval\<close>) when the
  argument map has it, else that of the environment variable.
\<close>

theorem stored_interval_floor:
  "(number_truthy (ps_interval (parseArgs_locals e am cfg)) \<longrightarrow>
      (\<exists>n. ps_interval (parseArgs_locals e am cfg) = Some n \<and>
           farmCheckInterval (snd (parseArgs e am cfg)) = max n 1 * 1000) \<and>
      1 * 1000 \<le> farmCheckInterval (snd (parseArgs e am cfg))) \<and>
   (\<not> number_truthy (ps_interval (parseArgs_locals e am cfg)) \<longrightarrow>
      farmCheckInterval (snd (parseArgs e am cfg)) = farmCheckInterval cfg) \<and>
   (number_truthy (ps_friend_interval (parseArgs_locals e am cfg)) \<longrightarrow>
      (\<exists>n. ps_friend_interval (parseArgs_locals e am cfg) = Some n \<and>
           friendCheckInterval (snd (parseArgs e am cfg)) = max n 1 * 1000) \<and>
      1 * 1000 \<le> friendCheckInterval (snd (parseArgs e am cfg))) \<and>
   (\<not> number_truthy (ps_friend_interval (parseArgs_locals e am cfg)) \<longrightarrow>
      friendCheckInterval (snd (parseArgs e am cfg)) = friendCheckInterval cfg) \<and>
   (distinct (map fst am) \<longrightarrow>
      ps_interval (parseArgs_locals e am cfg) =
        (case map_of am ''--interval'' of
           Some v \<Rightarrow> parseInt_arg v | None \<Rightarrow> or_zero (parseInt_env (env_INTERVAL e))) \<and>
      ps_friend_interval (parseArgs_locals e am cfg) =
        (case map_of am ''--friend-interval'' of
           Some v \<Rightarrow> parseInt_arg v | None \<Rightarrow> or_zero (parseInt_env (env_FRIEND_INTERVAL e))))"
proof -
  define st where "st = parseArgs_locals e am cfg"
  have cfg': "snd (parseArgs e am cfg)
      = apply_friend (ps_friend_interval st) (apply_farm (ps_interval st) (ps_CONFIG st))"
    by (simp add: parseArgs_def st_def Let_def)
  have keep: "farmCheckInterval (ps_CONFIG st) = farmCheckInterval cfg"
       "friendCheckInterval (ps_CONFIG st) = friendCheckInterval cfg"
    using parseArgs_locals_intervals [of e am cfg] by (simp_all add: st_def)
  have farm: "farmCheckInterval (snd (parseArgs e am cfg)) =
      (case ps_interval st of None \<Rightarrow> farmCheckInterval cfg
       | Some n \<Rightarrow> if n \<noteq> 0 then max n 1 * 1000 else farmCheckInterval cfg)"
    by (simp add: cfg' apply_friend_eq apply_farm_eq keep split: option.splits)
  have friend: "friendCheckInterval (snd (parseArgs e am cfg)) =
      (case ps_friend_interval st of None \<Rightarrow> friendCheckInterval cfg
       | Some n \<Rightarrow> if n \<noteq> 0 then max n 1 * 1000 else friendCheckInterval cfg)"
    by (simp add: cfg' apply_friend_eq apply_farm_eq keep split: option.splits)
  have 1: "number_truthy (ps_interval st) \<longrightarrow>
      (\<exists>n. ps_interval st = Some n \<and>
           farmCheckInterval (snd (parseArgs e am cfg)) = max n 1 * 1000) \<and>
      1 * 1000 \<le> farmCheckInterval (snd (parseArgs e am cfg))"
    by (cases "ps_interval st") (auto simp: farm)
  have 2: "\<not> number_truthy (ps_interval st) \<longrightarrow>
      farmCheckInterval (snd (parseArgs e am cfg)) = farmCheckInterval cfg"
    by (cases "ps_interval st") (auto simp: farm)
  have 3: "number_truthy (ps_friend_interval st) \<longrightarrow>
      (\<exists>n. ps_friend_interval st = Some n \<and>
           friendCheckInterval (snd (parseArgs e am cfg)) = max n 1 * 1000) \<and>
      1 * 1000 \<le> friendCheckInterval (snd (parseArgs e am cfg))"
    by (cases "ps_friend_interval st") (auto simp: friend)
  have 4: "\<not> number_truthy (ps_friend_interval st) \<longrightarrow>
      friendCheckInterval (snd (parseArgs e am cfg)) = friendCheckInterval cfg"
    by (cases "ps_friend_interval st") (auto simp: friend)
  have 5: "distinct (map fst am) \<longrightarrow>
      ps_interval st =
        (case map_of am ''--interval'' of
           Some v \<Rightarrow> parseInt_arg v | None \<Rightarrow> or_zero (parseInt_env (env_INTERVAL e))) \<and>
      ps_friend_interval st =
        (case map_of am ''--friend-interval'' of
           Some v \<Rightarrow> parseInt_arg v | None \<Rightarrow> or_zero (parseInt_env (env_FRIEND_INTERVAL e)))"
    by (simp add: st_def parseArgs_locals_def foldl_parseArgs_case_interval
          foldl_parseArgs_case_friend_interval parseArgs_env_def split: option.splits)
  from 1 2 3 4 5 show ?thesis unfolding st_def by blast
qed

lemma parseArgs_interval_nonneg:
  "0 \<le> farmCheckInterval cfg \<Longrightarrow> 0 \<le> farmCheckInterval (snd (parseArgs e am cfg))"
proof -
  assume nonneg: "0 \<le> farmCheckInterval cfg"
  have "farmCheckInterval (snd (parseArgs e am cfg)) =
      (case ps_interval (parseArgs_locals e am cfg) of
         None \<Rightarrow> farmCheckInterval cfg
       | Some n \<Rightarrow> if n \<noteq> 0 then max n 1 * 1000 else farmCheckInterval cfg)"
    using parseArgs_locals_intervals [of e am cfg]
    by (simp add: parseArgs_def Let_def apply_friend_eq apply_farm_eq split: option.splits)
  with nonneg show ?thesis by (simp split: option.splits)
qed

theorem stored_interval_floor_witness:
  "farmCheckInterval (snd (parseArgs (env0\<lparr>env_INTERVAL := Some ''30'', env_FRIEND_INTERVAL := Some ''-4''\<rparr>)
      (getArgsMap [''--interval'', ''0x2'', ''--code'', ''abc'']) cfg0)) = 2000 \<and>
   friendCheckInterval (snd (parseArgs (env0\<lparr>env_INTERVAL := Some ''30'', env_FRIEND_INTERVAL := Some ''-4''\<rparr>)
      (getArgsMap [''--interval'', ''0x2'', ''--code'', ''abc'']) cfg0)) = 1000 \<and>
   farmCheckInterval (snd (parseArgs env0 (getArgsMap [''--interval'', ''0'']) cfg0)) = 10000"
proof -
  let ?e = "env0\<lparr>env_INTERVAL := Some ''30'', env_FRIEND_INTERVAL := Some ''-4''\<rparr>"
  let ?am = "getArgsMap [''--interval'', ''0x2'', ''--code'', ''abc'']"
  have i: "ps_interval (parseArgs_locals ?e ?am cfg0) = Some 2"
    and f: "ps_friend_interval (parseArgs_locals ?e ?am cfg0) = Some (- 4)"
    and z: "ps_interval (parseArgs_locals env0 (getArgsMap [''--interval'', ''0'']) cfg0) = Some 0"
    and c: "farmCheckInterval cfg0 = 10000"
    by code_simp+
  show ?thesis
    using stored_interval_floor [of ?e ?am cfg0]
      stored_interval_floor [of env0 "getArgsMap [''--interval'', ''0'']" cfg0] i f z c
    by simp
qed

section \<open>The callbacks and the event loop\<close>

lemma onLoginSuccess_eq:
  "onLoginSuccess s =
     s\<lparr>trace := trace s @ [ProcessInviteCodes, StartFarmCheckLoop] @
          (if 0 < farmCheckInterval (CONFIG s) then [StartFriendCheckLoop] else []) @
          [InitTaskSystem, SetTimeout DebugSellFruits INITIAL_SELL_DELAY_MS,
           StartSellLoop SELL_LOOP_INTERVAL_MS]\<rparr>"
  if "exit_code s = None"
  using that by (simp add: onLoginSuccess_def call_def Let_def)

lemma calls_of_onLoginSuccess:
  "exit_code s = None \<Longrightarrow>
   calls_of onLoginSuccess s =
     [ProcessInviteCodes, StartFarmCheckLoop] @
     (if 0 < farmCheckInterval (CONFIG s) then [StartFriendCheckLoop] else []) @
     [InitTaskSystem, SetTimeout DebugSellFruits INITIAL_SELL_DELAY_MS,
      StartSellLoop SELL_LOOP_INTERVAL_MS]"
  by (simp add: calls_of_def onLoginSuccess_eq)

lemma shutdownAllModules_eq:
  "exit_code s = None \<Longrightarrow>
   shutdownAllModules s =
     s\<lparr>trace := trace s @ [CleanupStatusBar, StopFarmCheckLoop, StopFriendCheckLoop,
                            CleanupTaskSystem, StopSellLoop, Cleanup]\<rparr>"
  by (simp add: shutdownAllModules_def call_def Let_def)

lemma close_eq:
  "exit_code s = None \<Longrightarrow>
   close s =
     s\<lparr>trace := trace s @ [CleanupStatusBar, StopFarmCheckLoop, StopFriendCheckLoop,
                            CleanupTaskSystem, StopSellLoop, Cleanup, Log Disconnecting] @
                           (if socket s then [WsClose] else []) @ [ProcessExit 0],
       exit_code := Some 0\<rparr>"
  by (simp add: close_def shutdownAllModules_eq call_def process_exit_def Let_def)

lemma do_deleteCode_eq:
  "do_deleteCode s = s\<lparr>trace := trace s @ [CallDeleteCode], files := snd (deleteCode (files s))\<rparr>"
proof -
  obtain w where "deleteCode (files s) = (Inr (), w)"
    using deleteCode_returns by blast
  then show ?thesis by (simp add: do_deleteCode_def call_def)
qed

lemma do_saveCode_eq:
  "do_saveCode c s = s\<lparr>trace := trace s @ [CallSaveCode c], files := snd (saveCode c (files s))\<rparr>"
proof -
  obtain w where "saveCode c (files s) = (Inr (), w)"
    using saveCode_returns by blast
  then show ?thesis by (simp add: do_saveCode_def call_def)
qed

lemma onLoginError_eq:
  "exit_code s = None \<Longrightarrow>
   onLoginError err s =
     s\<lparr>trace := trace s @ [Log (LoginFailed (message err)), Log OldCodeInvalid, CallDeleteCode,
                            CleanupStatusBar, StopFarmCheckLoop, StopFriendCheckLoop,
                            CleanupTaskSystem, StopSellLoop, Cleanup, Log Disconnecting] @
                           (if socket s then [WsClose] else []) @ [ProcessExit 0],
       files := snd (deleteCode (files s)),
       exit_code := Some 0\<rparr>"
  by (simp add: onLoginError_def do_deleteCode_eq close_eq call_def Let_def)

lemma step_exited: "exit_code s \<noteq> None \<Longrightarrow> step ev s = s"
  by (simp add: step_def)

lemma run_exited: "exit_code s \<noteq> None \<Longrightarrow> run evs s = s"
  by (induction evs arbitrary: s) (simp_all add: run_def step_exited)

lemma run_Cons: "run (ev # evs) s = run evs (step ev s)"
  by (simp add: run_def)

lemma step_Disconnected_eq:
  "exit_code s = None \<Longrightarrow> disconnected_listener s \<Longrightarrow>
   step (Disconnected c) s =
     s\<lparr>trace := trace s @ [Log (ConnectionClosed c),
                            CleanupStatusBar, StopFarmCheckLoop, StopFriendCheckLoop,
                            CleanupTaskSystem, StopSellLoop, Cleanup, Log Disconnecting] @
                           (if socket s then [WsClose] else []) @ [ProcessExit 0],
       disconnected_listener := False,
       exit_code := Some 0\<rparr>"
  by (simp add: step_def close_eq call_def Let_def)

text \<open>What one event adds to the trace, in each case of \<open>step\<close>.\<close>

lemma step_cases:
  "step ev s = s \<or>
   (exit_code s = None \<and> ev = LoginOk \<and> step ev s = onLoginSuccess (s\<lparr>connecting := False\<rparr>)) \<or>
   (exit_code s = None \<and> (\<exists>r. ev = LoginRejected r \<and>
        step ev s = onLoginError (Error r) (s\<lparr>connecting := False\<rparr>))) \<or>
   (exit_code s = None \<and> disconnected_listener s \<and> (\<exists>c. ev = Disconnected c)) \<or>
   (exit_code s = None \<and> ev = SIGINT \<and> step ev s = close s) \<or>
   (exit_code s = None \<and> ev = SIGINT \<and> step ev s = s\<lparr>exit_code := Some 130\<rparr>)"
  by (cases ev) (auto simp: step_def)

lemma step_connects: "filter is_connect (trace (step ev s)) = filter is_connect (trace s)"
  using step_cases [of ev s]
  by (auto simp: onLoginSuccess_eq onLoginError_eq close_eq step_Disconnected_eq
        INITIAL_SELL_DELAY_MS_def)

lemma run_connects: "filter is_connect (trace (run evs s)) = filter is_connect (trace s)"
  by (induction evs arbitrary: s) (simp_all add: run_def step_connects)

lemma step_starts_loop:
  "ev \<noteq> LoginOk \<Longrightarrow> filter starts_loop (trace (step ev s)) = filter starts_loop (trace s)"
  using step_cases [of ev s]
  by (auto simp: onLoginError_eq close_eq step_Disconnected_eq)

lemma run_starts_loop:
  "LoginOk \<notin> set evs \<Longrightarrow> filter starts_loop (trace (run evs s)) = filter starts_loop (trace s)"
  by (induction evs arbitrary: s) (auto simp: run_def step_starts_loop)

lemma step_handler_runs:
  "handler_runs (step ev s) + handler_armed (step ev s) \<le> handler_runs s + handler_armed s"
  using step_cases [of ev s]
  by (auto simp: handler_runs_def handler_armed_def onLoginSuccess_eq onLoginError_eq close_eq
        step_Disconnected_eq)

lemma run_handler_runs:
  "handler_runs (run evs s) + handler_armed (run evs s) \<le> handler_runs s + handler_armed s"
proof (induction evs arbitrary: s)
  case Nil
  show ?case by (simp add: run_def)
next
  case (Cons ev evs)
  have "handler_runs (run (ev # evs) s) + handler_armed (run (ev # evs) s)
          \<le> handler_runs (step ev s) + handler_armed (step ev s)"
    using Cons [of "step ev s"] by (simp add: run_Cons)
  also have "\<dots> \<le> handler_runs s + handler_armed s" by (rule step_handler_runs)
  finally show ?case .
qed

section \<open>Login success: which loops start\<close>

text \<open>
  Claim C1. On a successful login the friend patrol loop is started exactly when the own-farm
  interval of the configuration is not zero; the friend interval does not change what is
  called; the own-farm loop, the task system and the sell loop are started in every case.
  The code tests \<^verbatim>\<open>CONFIG.farmCheckInterval > 0\<close>; an interval is not negative
  (\<open>parseArgs\<close> stores at least 1000 and keeps a default that is not negative, see
  \<open>parseArgs_interval_nonneg\<close>), and then this is the test
  for a non-zero interval.
\<close>

theorem friend_loop_start_condition:
  "exit_code s = None \<and> 0 \<le> farmCheckInterval (CONFIG s) \<longrightarrow>
     (StartFriendCheckLoop \<in> set (calls_of onLoginSuccess s))
        = (farmCheckInterval (CONFIG s) \<noteq> 0) \<and>
     calls_of onLoginSuccess (s\<lparr>CONFIG := (CONFIG s)\<lparr>friendCheckInterval := v\<rparr>\<rparr>)
        = calls_of onLoginSuccess s \<and>
     StartFarmCheckLoop \<in> set (calls_of onLoginSuccess s) \<and>
     InitTaskSystem \<in> set (calls_of onLoginSuccess s) \<and>
     StartSellLoop SELL_LOOP_INTERVAL_MS \<in> set (calls_of onLoginSuccess s)"
  by (auto simp: calls_of_onLoginSuccess)

theorem friend_loop_start_condition_witness:
  "StartFriendCheckLoop \<in> set (calls_of onLoginSuccess proc0) \<and>
   StartFriendCheckLoop \<notin> set (calls_of onLoginSuccess
      (proc0\<lparr>CONFIG := cfg0\<lparr>farmCheckInterval := 0\<rparr>\<rparr>)) \<and>
   calls_of onLoginSuccess (proc0\<lparr>CONFIG := (CONFIG proc0)\<lparr>friendCheckInterval := 0\<rparr>\<rparr>)
     = calls_of onLoginSuccess proc0 \<and>
   StartFarmCheckLoop \<in> set (calls_of onLoginSuccess proc0)"
proof -
  have 1: "exit_code proc0 = None \<and> 0 \<le> farmCheckInterval (CONFIG proc0)"
    by (simp add: proc0_def cfg0_def)
  have 2: "exit_code (proc0\<lparr>CONFIG := cfg0\<lparr>farmCheckInterval := 0\<rparr>\<rparr>) = None \<and>
           0 \<le> farmCheckInterval (CONFIG (proc0\<lparr>CONFIG := cfg0\<lparr>farmCheckInterval := 0\<rparr>\<rparr>))"
    by (simp add: proc0_def cfg0_def)
  have 3: "farmCheckInterval (CONFIG proc0) \<noteq> 0" by (simp add: proc0_def cfg0_def)
  show ?thesis
    using friend_loop_start_condition [of proc0 0] 1 3
      friend_loop_start_condition [of "proc0\<lparr>CONFIG := cfg0\<lparr>farmCheckInterval := 0\<rparr>\<rparr>" 0] 2
    by simp
qed

text \<open>
  Claim C6. The success callback sets one timer, for \<^verbatim>\<open>debugSellFruits\<close> after 5000 ms, and
  starts the sell loop once, with 60000 ms: both are the constants
  \<open>INITIAL_SELL_DELAY_MS\<close> and \<open>SELL_LOOP_INTERVAL_MS\<close>, whatever the configuration holds.
\<close>

theorem sell_delays_fixed:
  "exit_code s = None \<longrightarrow>
     filter is_timer (calls_of onLoginSuccess s) = [SetTimeout DebugSellFruits 5000] \<and>
     filter is_sell_loop (calls_of onLoginSuccess s) = [StartSellLoop 60000] \<and>
     INITIAL_SELL_DELAY_MS = 5000 \<and> SELL_LOOP_INTERVAL_MS = 60000"
  by (simp add: calls_of_onLoginSuccess INITIAL_SELL_DELAY_MS_def SELL_LOOP_INTERVAL_MS_def)

theorem sell_delays_fixed_witness:
  "filter is_timer (calls_of onLoginSuccess
       (proc0\<lparr>CONFIG := \<lparr>platform = ''qq'', farmCheckInterval = 3000, friendCheckInterval = 7000\<rparr>\<rparr>))
     = [SetTimeout DebugSellFruits 5000] \<and>
   filter is_sell_loop (calls_of onLoginSuccess
       (proc0\<lparr>CONFIG := \<lparr>platform = ''qq'', farmCheckInterval = 3000, friendCheckInterval = 7000\<rparr>\<rparr>))
     = [StartSellLoop 60000]"
  using sell_delays_fixed
    [of "proc0\<lparr>CONFIG := \<lparr>platform = ''qq'', farmCheckInterval = 3000, friendCheckInterval = 7000\<rparr>\<rparr>"]
  by (simp add: proc0_def)

section \<open>Shutdown\<close>

text \<open>
  Claim C7. SIGINT and the first \<^verbatim>\<open>disconnected\<close> event both run \<open>close\<close>, which stops the
  status bar and the four loops, cleans up the session, closes the socket when there is one
  and exits with code 0, after which no event is handled. No event makes this entry point
  call \<^verbatim>\<open>connect\<close> again, and in every run the \<^verbatim>\<open>disconnected\<close> listener runs at most
  once.
\<close>

theorem shutdown_paths:
  "exit_code s = None \<longrightarrow>
     (sigint_listener s \<longrightarrow> step SIGINT s = close s) \<and>
     (disconnected_listener s \<longrightarrow>
        step (Disconnected c) s
          = close (call (Log (ConnectionClosed c)) (s\<lparr>disconnected_listener := False\<rparr>))) \<and>
     calls_of close s
       = [CleanupStatusBar, StopFarmCheckLoop, StopFriendCheckLoop, CleanupTaskSystem,
          StopSellLoop, Cleanup, Log Disconnecting] @
         (if socket s then [WsClose] else []) @ [ProcessExit 0] \<and>
     exit_code (close s) = Some 0 \<and>
     (\<forall>evs. run evs (close s) = close s) \<and>
     (\<forall>evs. filter is_connect (trace (run evs s)) = filter is_connect (trace s)) \<and>
     (\<forall>evs. handler_runs (run evs s) \<le> handler_runs s + 1)"
proof (intro impI conjI allI)
  assume r: "exit_code s = None"
  show "step SIGINT s = close s" if "sigint_listener s"
    using r that by (simp add: step_def)
  show "step (Disconnected c) s
          = close (call (Log (ConnectionClosed c)) (s\<lparr>disconnected_listener := False\<rparr>))"
    if "disconnected_listener s"
    using r that by (simp add: step_def call_def Let_def)
  show "calls_of close s
       = [CleanupStatusBar, StopFarmCheckLoop, StopFriendCheckLoop, CleanupTaskSystem,
          StopSellLoop, Cleanup, Log Disconnecting] @
         (if socket s then [WsClose] else []) @ [ProcessExit 0]"
    using r by (simp add: calls_of_def close_eq)
  show "exit_code (close s) = Some 0"
    using r by (simp add: close_eq)
  then show "run evs (close s) = close s" for evs
    by (simp add: run_exited)
  show "filter is_connect (trace (run evs s)) = filter is_connect (trace s)" for evs
    by (rule run_connects)
  show "handler_runs (run evs s) \<le> handler_runs s + 1" for evs
  proof -
    have "handler_runs (run evs s) \<le> handler_runs s + handler_armed s"
      using run_handler_runs [of evs s] by simp
    moreover have "handler_armed s \<le> 1" by (simp add: handler_armed_def)
    ultimately show ?thesis by simp
  qed
qed

theorem shutdown_paths_witness:
  "step SIGINT logged_in = close logged_in \<and>
   step (Disconnected 1006) logged_in
     = close (call (Log (ConnectionClosed 1006)) (logged_in\<lparr>disconnected_listener := False\<rparr>)) \<and>
   calls_of close logged_in
     = [CleanupStatusBar, StopFarmCheckLoop, StopFriendCheckLoop, CleanupTaskSystem,
        StopSellLoop, Cleanup, Log Disconnecting, WsClose, ProcessExit 0] \<and>
   exit_code (close logged_in) = Some 0 \<and>
   run [LoginOk, SIGINT] (close logged_in) = close logged_in \<and>
   filter is_connect (trace (run [Disconnected 1006, LoginOk] logged_in))
     = [Connect (AStr ''abc123'')] \<and>
   handler_runs (run [Disconnected 1006, Disconnected 1006, SIGINT] logged_in) \<le> 1"
proof -
  have facts: "exit_code logged_in = None" "sigint_listener logged_in"
    "disconnected_listener logged_in" "socket logged_in" "handler_runs logged_in = 0"
    "filter is_connect (trace logged_in) = [Connect (AStr ''abc123'')]"
    by code_simp+
  show ?thesis
    using shutdown_paths [of logged_in 1006] facts by simp
qed

section \<open>Properties of main\<close>

lemmas main_unfold = main_def main_run_def main_saved_def main_scan_def main_validate_def
  acquireCodeByQrScan_def do_saveCode_eq clearScreen_def connect_def call_def process_exit_def
  calls_of_def Let_def explicit_code_def configured_def qr_option_def startup_calls_def
  uncaught_def

lemma loadCode_Some_nonempty: "fst (loadCode w) = Inr (Some c) \<Longrightarrow> c \<noteq> []"
  by (auto simp: loadCode_def readFileSync_def console_warn_def Let_def
        split: if_splits option.splits)

lemma loadCode_fst_cases:
  "fst (loadCode w) = Inr None \<or> (\<exists>c. fst (loadCode w) = Inr (Some c) \<and> c \<noteq> [])"
proof -
  obtain r w' where "loadCode w = (Inr r, w')" using loadCode_returns by blast
  then show ?thesis using loadCode_Some_nonempty [of w] by (cases r) auto
qed

lemma main_verify:
  "''--verify'' \<in> set args \<Longrightarrow> calls_of (main args e) s = [LoadProto, VerifyMode]"
  by (simp add: main_def calls_of_def call_def)

lemma main_decode:
  "''--verify'' \<notin> set args \<Longrightarrow> ''--decode'' \<in> set args \<Longrightarrow>
   calls_of (main args e) s = [LoadProto, DecodeMode args]"
  by (simp add: main_def calls_of_def call_def)

lemma main_explicit:
  assumes "exit_code s = None" "''--verify'' \<notin> set args" "''--decode'' \<notin> set args"
    and "truthy (explicit_code args e s)"
  shows "calls_of (main args e) s
    = LoadProto # startup_calls (configured args e s) (explicit_code args e s)"
  using assms by (simp add: main_unfold)

lemma main_other_platform:
  assumes "exit_code s = None" "''--verify'' \<notin> set args" "''--decode'' \<notin> set args"
    and "\<not> truthy (explicit_code args e s)" "platform (configured args e s) \<noteq> ''qq''"
  shows "calls_of (main args e) s
    = [LoadProto] @ (if platform (configured args e s) = ''wx'' then [Log WxNeedsCode] else [])
      @ [ShowHelp, ProcessExit 1]"
  using assms by (simp add: main_unfold)

lemma main_saved_credential:
  assumes "exit_code s = None" "''--verify'' \<notin> set args" "''--decode'' \<notin> set args"
    and "\<not> truthy (explicit_code args e s)" "platform (configured args e s) = ''qq''"
    and "fst (loadCode (files s)) = Inr (Some c)"
  shows "calls_of (main args e) s
    = [LoadProto, CallLoadCode, Log SavedCodeDetected] @ startup_calls (configured args e s) (AStr c)"
proof -
  obtain w where l: "loadCode (files s) = (Inr (Some c), w)"
    using assms(6) by (cases "loadCode (files s)") simp
  have "c \<noteq> []" using assms(6) by (rule loadCode_Some_nonempty)
  with assms l show ?thesis by (simp add: main_unfold)
qed

lemma main_no_scan:
  assumes "exit_code s = None" "''--verify'' \<notin> set args" "''--decode'' \<notin> set args"
    and "\<not> truthy (explicit_code args e s)" "platform (configured args e s) = ''qq''"
    and "fst (loadCode (files s)) = Inr None"
    and "\<not> (qr_option args e s \<or> ''--code'' \<notin> set args)"
  shows "calls_of (main args e) s = [LoadProto, CallLoadCode, ShowHelp, ProcessExit 1]"
proof -
  obtain w where l: "loadCode (files s) = (Inr None, w)"
    using assms(6) by (cases "loadCode (files s)") simp
  with assms show ?thesis by (simp add: main_unfold)
qed

lemma main_scan_rejected:
  assumes "exit_code s = None" "''--verify'' \<notin> set args" "''--decode'' \<notin> set args"
    and "\<not> truthy (explicit_code args e s)" "platform (configured args e s) = ''qq''"
    and "fst (loadCode (files s)) = Inr None"
    and "qr_option args e s \<or> ''--code'' \<notin> set args"
    and "qr_scan s = Inl err"
  shows "calls_of (main args e) s
    = [LoadProto, CallLoadCode, Log QrAcquiring, GetQQFarmCodeByScan,
       Log (StartFailed (message err)), ProcessExit 1]"
proof -
  obtain w where l: "loadCode (files s) = (Inr None, w)"
    using assms(6) by (cases "loadCode (files s)") simp
  with assms show ?thesis by (simp add: main_unfold)
qed

lemma main_scanned:
  assumes "exit_code s = None" "''--verify'' \<notin> set args" "''--decode'' \<notin> set args"
    and "\<not> truthy (explicit_code args e s)" "platform (configured args e s) = ''qq''"
    and "fst (loadCode (files s)) = Inr None"
    and "qr_option args e s \<or> ''--code'' \<notin> set args"
    and "qr_scan s = Inr c"
  shows "calls_of (main args e) s
    = [LoadProto, CallLoadCode, Log QrAcquiring, GetQQFarmCodeByScan, Log (QrAcquired c),
       CallSaveCode c] @
      (if c = [] then [ShowHelp, ProcessExit 1]
       else (if isTTY s then [ClearScreen] else []) @ startup_calls (configured args e s) (AStr c))"
proof -
  obtain w where l: "loadCode (files s) = (Inr None, w)"
    using assms(6) by (cases "loadCode (files s)") simp
  with assms show ?thesis by (simp add: main_unfold)
qed

lemma main_scenarios:
  assumes run: "exit_code s = None"
  shows "calls_of (main args e) s = [LoadProto, VerifyMode] \<or>
    calls_of (main args e) s = [LoadProto, DecodeMode args] \<or>
    calls_of (main args e) s
      = LoadProto # startup_calls (configured args e s) (explicit_code args e s) \<or>
    calls_of (main args e) s
      = [LoadProto] @ (if platform (configured args e s) = ''wx'' then [Log WxNeedsCode] else [])
        @ [ShowHelp, ProcessExit 1] \<or>
    (\<exists>c. calls_of (main args e) s
      = [LoadProto, CallLoadCode, Log SavedCodeDetected]
        @ startup_calls (configured args e s) (AStr c)) \<or>
    calls_of (main args e) s = [LoadProto, CallLoadCode, ShowHelp, ProcessExit 1] \<or>
    (\<exists>err. calls_of (main args e) s
      = [LoadProto, CallLoadCode, Log QrAcquiring, GetQQFarmCodeByScan,
         Log (StartFailed (message err)), ProcessExit 1]) \<or>
    (\<exists>c. calls_of (main args e) s
      = [LoadProto, CallLoadCode, Log QrAcquiring, GetQQFarmCodeByScan, Log (QrAcquired c),
         CallSaveCode c] @
        (if c = [] then [ShowHelp, ProcessExit 1]
         else (if isTTY s then [ClearScreen] else [])
              @ startup_calls (configured args e s) (AStr c)))"
proof (cases "''--verify'' \<in> set args")
  case True
  then show ?thesis by (simp add: main_verify)
next
  case nv: False
  show ?thesis
  proof (cases "''--decode'' \<in> set args")
    case True
    with nv show ?thesis by (simp add: main_decode)
  next
    case nd: False
    show ?thesis
    proof (cases "truthy (explicit_code args e s)")
      case True
      with run nv nd show ?thesis by (simp add: main_explicit)
    next
      case nx: False
      show ?thesis
      proof (cases "platform (configured args e s) = ''qq''")
        case False
        with run nv nd nx show ?thesis by (simp add: main_other_platform)
      next
        case qq: True
        from loadCode_fst_cases [of "files s"] show ?thesis
        proof
          assume none: "fst (loadCode (files s)) = Inr None"
          show ?thesis
          proof (cases "qr_option args e s \<or> ''--code'' \<notin> set args")
            case False
            with run nv nd nx qq none show ?thesis by (simp add: main_no_scan)
          next
            case scan: True
            show ?thesis
            proof (cases "qr_scan s")
              case (Inl err)
              from main_scan_rejected [OF run nv nd nx qq none scan Inl]
              show ?thesis by blast
            next
              case (Inr scanned)
              from main_scanned [OF run nv nd nx qq none scan Inr]
              show ?thesis by blast
            qed
          qed
        next
          assume "\<exists>c. fst (loadCode (files s)) = Inr (Some c) \<and> c \<noteq> []"
          then obtain saved where sv: "fst (loadCode (files s)) = Inr (Some saved)" by blast
          from main_saved_credential [OF run nv nd nx qq sv]
          show ?thesis by blast
        qed
      qed
    qed
  qed
qed

lemma main_starts_no_loop:
  "exit_code s = None \<Longrightarrow> filter starts_loop (calls_of (main args e) s) = []"
  using main_scenarios [of s args e] by (auto simp: startup_calls_def)





section \<open>Login failure\<close>

lemmas p0_unfold = onLoginError_p0_def rescan_p0_def do_deleteCode_eq do_saveCode_eq
  clearScreen_def connect_def call_def process_exit_def Let_def

lemma onLoginError_p0_retry:
  assumes "exit_code s = None" "useSavedCode (opts s)" "loginAttemptCount s = 0"
    and "platform (CONFIG s) = ''qq''" "qr_scan s = Inr c"
  shows "onLoginError_p0 err s =
    s\<lparr>loginAttemptCount := 1,
      trace := trace s @
        [Log (LoginFailed (message err)), Log OldCodeInvalid, CallDeleteCode, Sleep 1000,
         Log QrReacquiring, GetQQFarmCodeByScan, Log (QrAcquired c), CallSaveCode c] @
        (if isTTY s then [ClearScreen] else []) @
        [Log (Startup (AStr c)), Connect (AStr c)],
      files := snd (saveCode c (snd (deleteCode (files s)))),
      opts := (opts s)\<lparr>code := AStr c, useSavedCode := False\<rparr>,
      connecting := True\<rparr>"
  using assms by (simp add: p0_unfold)

lemma onLoginError_p0_scan_rejected:
  assumes "exit_code s = None" "useSavedCode (opts s)" "loginAttemptCount s = 0"
    and "platform (CONFIG s) = ''qq''" "qr_scan s = Inl scanErr"
  shows "onLoginError_p0 err s =
    s\<lparr>loginAttemptCount := 1,
      trace := trace s @
        [Log (LoginFailed (message err)), Log OldCodeInvalid, CallDeleteCode, Sleep 1000,
         Log QrReacquiring, GetQQFarmCodeByScan, Log (QrFailed (message scanErr)),
         ProcessExit 1],
      files := snd (deleteCode (files s)),
      exit_code := Some 1\<rparr>"
  using assms by (simp add: p0_unfold)

lemma onLoginError_p0_other_platform:
  assumes "exit_code s = None" "useSavedCode (opts s)" "loginAttemptCount s = 0"
    and "platform (CONFIG s) \<noteq> ''qq''"
  shows "onLoginError_p0 err s =
    s\<lparr>loginAttemptCount := 1,
      trace := trace s @
        [Log (LoginFailed (message err)), Log OldCodeInvalid, CallDeleteCode, Sleep 1000],
      files := snd (deleteCode (files s))\<rparr>"
  using assms by (simp add: p0_unfold)

lemma onLoginError_p0_give_up:
  assumes "exit_code s = None" "\<not> (useSavedCode (opts s) \<and> loginAttemptCount s = 0)"
  shows "onLoginError_p0 err s =
    s\<lparr>loginAttemptCount := loginAttemptCount s + 1,
      trace := trace s @ [Log (LoginFailed (message err)), Log Unrecoverable, ProcessExit 1],
      exit_code := Some 1\<rparr>"
  using assms by (auto simp: p0_unfold)

lemma sigint_p0_eq:
  "exit_code s = None \<Longrightarrow>
   sigint_p0 s =
     s\<lparr>trace := trace s @ [CleanupStatusBar, Log Disconnecting, StopFarmCheckLoop,
                            StopFriendCheckLoop, CleanupTaskSystem, StopSellLoop, Cleanup] @
                           (if socket s then [WsClose] else []) @ [ProcessExit 0],
       exit_code := Some 0\<rparr>"
  by (simp add: sigint_p0_def call_def process_exit_def Let_def)

lemma onLoginError_p0_starts_loop:
  "exit_code s = None \<Longrightarrow>
   filter starts_loop (trace (onLoginError_p0 err s)) = filter starts_loop (trace s)"
proof (cases "useSavedCode (opts s) \<and> loginAttemptCount s = 0")
  case False
  moreover assume "exit_code s = None"
  ultimately show ?thesis by (simp add: onLoginError_p0_give_up)
next
  case True
  assume run: "exit_code s = None"
  show ?thesis
  proof (cases "platform (CONFIG s) = ''qq''")
    case False
    with run True show ?thesis by (simp add: onLoginError_p0_other_platform)
  next
    case qq: True
    show ?thesis
    proof (cases "qr_scan s")
      case (Inl scanErr)
      with run True qq show ?thesis by (simp add: onLoginError_p0_scan_rejected)
    next
      case (Inr c)
      with run True qq show ?thesis by (simp add: onLoginError_p0_retry)
    qed
  qed
qed

lemma step_p0_starts_loop:
  "ev \<noteq> LoginOk \<Longrightarrow>
   filter starts_loop (trace (step_p0 ev s)) = filter starts_loop (trace s)"
  by (cases ev) (auto simp: step_p0_def onLoginError_p0_starts_loop sigint_p0_eq)

lemma run_p0_starts_loop:
  "LoginOk \<notin> set evs \<Longrightarrow>
   filter starts_loop (trace (run_p0 evs s)) = filter starts_loop (trace s)"
  by (induction evs arbitrary: s) (auto simp: run_p0_def step_p0_starts_loop)

lemma onLoginError_p0_budget:
  "exit_code s = None \<Longrightarrow>
   connects (onLoginError_p0 err s) + retry_budget (onLoginError_p0 err s)
     \<le> connects s + retry_budget s"
proof (cases "useSavedCode (opts s) \<and> loginAttemptCount s = 0")
  case False
  moreover assume "exit_code s = None"
  ultimately show ?thesis
    by (simp add: onLoginError_p0_give_up connects_def retry_budget_def)
next
  case True
  assume run: "exit_code s = None"
  show ?thesis
  proof (cases "platform (CONFIG s) = ''qq''")
    case False
    with run True show ?thesis
      by (simp add: onLoginError_p0_other_platform connects_def retry_budget_def)
  next
    case qq: True
    show ?thesis
    proof (cases "qr_scan s")
      case (Inl scanErr)
      with run True qq show ?thesis
        by (simp add: onLoginError_p0_scan_rejected connects_def retry_budget_def)
    next
      case (Inr c)
      with run True qq show ?thesis
        by (simp add: onLoginError_p0_retry connects_def retry_budget_def)
    qed
  qed
qed

lemma step_p0_budget:
  "connects (step_p0 ev s) + retry_budget (step_p0 ev s) \<le> connects s + retry_budget s"
proof (cases "exit_code s = None")
  case False
  then show ?thesis by (simp add: step_p0_def)
next
  case True
  show ?thesis
  proof (cases ev)
    case LoginOk
    with True show ?thesis
      by (simp add: step_p0_def onLoginSuccess_eq connects_def retry_budget_def)
  next
    case (LoginRejected r)
    have "retry_budget (s\<lparr>connecting := False\<rparr>) = retry_budget s"
      "connects (s\<lparr>connecting := False\<rparr>) = connects s"
      by (simp_all add: retry_budget_def connects_def)
    with True LoginRejected onLoginError_p0_budget [of "s\<lparr>connecting := False\<rparr>" "Error r"]
    show ?thesis by (simp add: step_p0_def)
  next
    case (Disconnected c)
    with True show ?thesis by (simp add: step_p0_def)
  next
    case SIGINT
    with True show ?thesis
      by (simp add: step_p0_def sigint_p0_eq connects_def retry_budget_def)
  qed
qed

lemma run_p0_budget:
  "connects (run_p0 evs s) + retry_budget (run_p0 evs s) \<le> connects s + retry_budget s"
proof (induction evs arbitrary: s)
  case Nil
  show ?case by (simp add: run_p0_def)
next
  case (Cons ev evs)
  have "connects (run_p0 (ev # evs) s) + retry_budget (run_p0 (ev # evs) s)
          \<le> connects (step_p0 ev s) + retry_budget (step_p0 ev s)"
    using Cons [of "step_p0 ev s"] by (simp add: run_p0_def)
  also have "\<dots> \<le> connects s + retry_budget s" by (rule step_p0_budget)
  finally show ?case .
qed

lemma run_p0_retries_once: "connects (run_p0 evs s) \<le> connects s + 1"
proof -
  have "connects (run_p0 evs s) \<le> connects s + retry_budget s"
    using run_p0_budget [of evs s] by simp
  moreover have "retry_budget s \<le> 1" by (simp add: retry_budget_def)
  ultimately show ?thesis by simp
qed

lemma onLoginError_p0_logs_reason:
  "exit_code s = None \<Longrightarrow>
   Log (LoginFailed (message err)) \<in> set (drop (length (trace s)) (trace (onLoginError_p0 err s)))"
proof (cases "useSavedCode (opts s) \<and> loginAttemptCount s = 0")
  case False
  moreover assume "exit_code s = None"
  ultimately show ?thesis by (simp add: onLoginError_p0_give_up)
next
  case True
  assume run: "exit_code s = None"
  show ?thesis
  proof (cases "platform (CONFIG s) = ''qq''")
    case False
    with run True show ?thesis by (simp add: onLoginError_p0_other_platform)
  next
    case qq: True
    show ?thesis
    proof (cases "qr_scan s")
      case (Inl scanErr)
      with run True qq show ?thesis by (simp add: onLoginError_p0_scan_rejected)
    next
      case (Inr c)
      with run True qq show ?thesis by (simp add: onLoginError_p0_retry)
    qed
  qed
qed

text \<open>
  Claim C2. When the login is rejected, \<open>onLoginError\<close> runs with the reason the server
  reported (it logs it), the process exits, and whatever events follow, no call that starts
  one of the four loops is ever made. In general no event other than a successful login
  makes a loop start, and \<^verbatim>\<open>main\<close> starts none either: the starts are in
  \<open>onLoginSuccess\<close> only. The same holds for the second entry point, as long as no login
  succeeds.
\<close>

theorem rejected_login_starts_no_loop:
  "(exit_code s = None \<and> connecting s \<longrightarrow>
      step (LoginRejected reason) s = onLoginError (Error reason) (s\<lparr>connecting := False\<rparr>) \<and>
      Log (LoginFailed reason) \<in> set (calls_of (step (LoginRejected reason)) s) \<and>
      exit_code (step (LoginRejected reason) s) = Some 0 \<and>
      (\<forall>evs. filter starts_loop (trace (run evs (step (LoginRejected reason) s)))
               = filter starts_loop (trace s)) \<and>
      step_p0 (LoginRejected reason) s
        = onLoginError_p0 (Error reason) (s\<lparr>connecting := False\<rparr>) \<and>
      Log (LoginFailed reason) \<in> set (calls_of (step_p0 (LoginRejected reason)) s)) \<and>
   (\<forall>evs. LoginOk \<notin> set evs \<longrightarrow>
      filter starts_loop (trace (run evs s)) = filter starts_loop (trace s) \<and>
      filter starts_loop (trace (run_p0 evs s)) = filter starts_loop (trace s)) \<and>
   (exit_code s0 = None \<longrightarrow> filter starts_loop (calls_of (main args e) s0) = [])"
proof (intro impI conjI allI)
  assume a: "exit_code s = None \<and> connecting s"
  then have run: "exit_code s = None" and "connecting s" by simp_all
  then show st: "step (LoginRejected reason) s
      = onLoginError (Error reason) (s\<lparr>connecting := False\<rparr>)"
    by (simp add: step_def)
  show "Log (LoginFailed reason) \<in> set (calls_of (step (LoginRejected reason)) s)"
    using run by (simp add: calls_of_def st onLoginError_eq)
  show ex: "exit_code (step (LoginRejected reason) s) = Some 0"
    using run by (simp add: st onLoginError_eq)
  show "filter starts_loop (trace (run evs (step (LoginRejected reason) s)))
      = filter starts_loop (trace s)" for evs
    using ex by (simp add: run_exited step_starts_loop)
  show st0: "step_p0 (LoginRejected reason) s
      = onLoginError_p0 (Error reason) (s\<lparr>connecting := False\<rparr>)"
    using a by (simp add: step_p0_def)
  show "Log (LoginFailed reason) \<in> set (calls_of (step_p0 (LoginRejected reason)) s)"
    using run onLoginError_p0_logs_reason [of "s\<lparr>connecting := False\<rparr>" "Error reason"]
    by (simp add: calls_of_def st0)
next
  fix evs
  assume "LoginOk \<notin> set evs"
  then show "filter starts_loop (trace (run evs s)) = filter starts_loop (trace s)"
    and "filter starts_loop (trace (run_p0 evs s)) = filter starts_loop (trace s)"
    by (rule run_starts_loop, rule run_p0_starts_loop)
next
  assume "exit_code s0 = None"
  then show "filter starts_loop (calls_of (main args e) s0) = []"
    by (rule main_starts_no_loop)
qed

theorem rejected_login_starts_no_loop_witness:
  "step (LoginRejected ''invalid code'') saved_login
     = onLoginError (Error ''invalid code'') (saved_login\<lparr>connecting := False\<rparr>) \<and>
   Log (LoginFailed ''invalid code'')
     \<in> set (calls_of (step (LoginRejected ''invalid code'')) saved_login) \<and>
   exit_code (step (LoginRejected ''invalid code'') saved_login) = Some 0 \<and>
   filter starts_loop
     (trace (run [LoginOk, SIGINT] (step (LoginRejected ''invalid code'') saved_login))) = [] \<and>
   filter starts_loop (trace (run_p0 [LoginRejected ''invalid code'', SIGINT] saved_login)) = [] \<and>
   filter starts_loop (calls_of (main [] env0) saved_proc) = []"
proof -
  have facts: "exit_code saved_login = None" "connecting saved_login"
    "filter starts_loop (trace saved_login) = []"
    "LoginOk \<notin> set [LoginRejected ''invalid code'', SIGINT]"
    "exit_code saved_proc = None"
    by code_simp+
  show ?thesis
    using rejected_login_starts_no_loop
      [where s = saved_login and reason = "''invalid code''" and args = "[]" and e = env0
         and ?s0.0 = saved_proc] facts
    by auto
qed

text \<open>
  \<open>onLoginError\<close> of \<^verbatim>\<open>src/client.js\<close> deletes the credential file and exits, in every state:
  it neither scans nor connects again. The second entry point connects at most once more in
  any run (\<open>run_p0_retries_once\<close>), and does so after the first failure of a saved credential
  (\<open>onLoginError_p0_retry\<close>).
\<close>

lemma onLoginError_never_retries:
  "exit_code s = None \<Longrightarrow>
   exit_code (onLoginError err s) = Some 0 \<and> connects (onLoginError err s) = connects s \<and>
   GetQQFarmCodeByScan \<notin> set (calls_of (onLoginError err) s) \<and>
   CallDeleteCode \<in> set (calls_of (onLoginError err) s)"
  by (simp add: onLoginError_eq connects_def calls_of_def)

text \<open>
  Claim C3 (a failed saved credential is deleted and the login retried once with a fresh
  one). The state is the one after \<^verbatim>\<open>main\<close> connected with the saved credential, and
  the error callback runs. \<open>onLoginError\<close> of \<^verbatim>\<open>src/client.js\<close> deletes the credential file,
  shuts down and exits with code 0: no scan, no second \<^verbatim>\<open>connect\<close>. That of the second
  entry point, in the same state (its \<^verbatim>\<open>main\<close> differs in log lines only), deletes the
  file, waits, scans, saves the new credential and connects with it.
\<close>

theorem saved_credential_rejected:
  "exit_code saved_login = None \<and> connecting saved_login \<and> useSavedCode (opts saved_login) \<and>
   calls_of (onLoginError (Error ''expired'')) saved_login
     = [Log (LoginFailed ''expired''), Log OldCodeInvalid, CallDeleteCode,
        CleanupStatusBar, StopFarmCheckLoop, StopFriendCheckLoop, CleanupTaskSystem,
        StopSellLoop, Cleanup, Log Disconnecting, WsClose, ProcessExit 0] \<and>
   exit_code (onLoginError (Error ''expired'') saved_login) = Some 0 \<and>
   connects (run [LoginOk, SIGINT] (onLoginError (Error ''expired'') saved_login))
     = connects saved_login \<and>
   calls_of (onLoginError_p0 (Error ''expired'')) saved_login
     = [Log (LoginFailed ''expired''), Log OldCodeInvalid, CallDeleteCode, Sleep 1000,
        Log QrReacquiring, GetQQFarmCodeByScan, Log (QrAcquired ''scanned''),
        CallSaveCode ''scanned'', Log (Startup (AStr ''scanned'')),
        Connect (AStr ''scanned'')] \<and>
   exit_code (onLoginError_p0 (Error ''expired'') saved_login) = None"
  by code_simp

end
